theory Spec2Isabelle
  imports Main
begin

section \<open>Tensors, slices and the library calls of the batch builder\<close>

text \<open>
  The script \<^verbatim>\<open>train_softmax_bi.py\<close> only ever cuts, reverses, pads and packs its
  embedding tensor along dimension 0, so a tensor of shape \<open>(N, D)\<close> is a list of \<open>N\<close>
  rows of an arbitrary row type \<open>'r\<close>, and a padded batch of shape \<open>(B, T, D)\<close> is a list
  of \<open>B\<close> lists of \<open>T\<close> rows. The outfit lengths delivered by the data loader are
  Python integers, hence \<open>int\<close>.
\<close>

datatype error =
    EmptySequenceList
  | CannotPackEmpty
  | LengthsBatchMismatch
  | LengthNotPositive
  | LengthsNotSorted
  | ShapeMismatch
  | CriterionError
  | UnboundLocalError
  | OverflowError

text \<open>
  A slice bound of Python and of torch: a negative bound counts from the end, and every
  bound is clamped to \<open>0 .. n\<close>. Slicing never raises.
\<close>

definition slice_bound :: "nat \<Rightarrow> int \<Rightarrow> nat" where
  "slice_bound n i = (if i < 0 then nat (max 0 (int n + i)) else min n (nat i))"

text \<open>
  \<^verbatim>\<open>tensor[a:b]\<close>: the rows from the normalised \<open>a\<close> up to the normalised \<open>b\<close>, none when
  the upper bound is not above the lower one (the truncating subtraction of \<open>nat\<close>).
\<close>

definition slice :: "'r list \<Rightarrow> int \<Rightarrow> int \<Rightarrow> 'r list" where
  "slice tensor a b =
     (let lo = slice_bound (length tensor) a; hi = slice_bound (length tensor) b
      in take (hi - lo) (drop lo tensor))"

text \<open>
  \<^verbatim>\<open>flip_tensor\<close> (lines 94-100): the index list \<open>size - 1, ..., 0\<close> and the
  \<^verbatim>\<open>index_select\<close> along dimension 0.
\<close>

definition flip_tensor :: "'r list \<Rightarrow> 'r list" where
  "flip_tensor tensor =
     (let idx = rev [0..<length tensor] in map (\<lambda>i. tensor ! i) idx)"

text \<open>
  Lines 117-121 (and 206-210): the loop that appends
  \<^verbatim>\<open>emb_seqs[start : start + length - 1]\<close> and advances \<^verbatim>\<open>start\<close> by the length.
\<close>

fun input_emb_loop :: "'r list \<Rightarrow> int \<Rightarrow> int list \<Rightarrow> 'r list list" where
  "input_emb_loop emb_seqs start [] = []"
| "input_emb_loop emb_seqs start (len # lengths) =
     slice emb_seqs start (start + len - 1) # input_emb_loop emb_seqs (start + len) lengths"

definition input_emb_list :: "'r list \<Rightarrow> int list \<Rightarrow> 'r list list" where
  "input_emb_list emb_seqs lengths = input_emb_loop emb_seqs 0 lengths"

text \<open>
  Lines 130-134 (and 219-223): the loop that appends
  \<^verbatim>\<open>emb_seqs[start + 1 : start + length]\<close>.
\<close>

fun target_emb_loop :: "'r list \<Rightarrow> int \<Rightarrow> int list \<Rightarrow> 'r list list" where
  "target_emb_loop emb_seqs start [] = []"
| "target_emb_loop emb_seqs start (len # lengths) =
     slice emb_seqs (start + 1) (start + len) # target_emb_loop emb_seqs (start + len) lengths"

definition target_emb_list :: "'r list \<Rightarrow> int list \<Rightarrow> 'r list list" where
  "target_emb_list emb_seqs lengths = target_emb_loop emb_seqs 0 lengths"

text \<open>
  Line 142: the list \<^verbatim>\<open>[i - 1 for i in lengths]\<close> of Python integers, and
  \<^verbatim>\<open>torch.tensor\<close>, which makes of it a tensor of signed 64-bit integers and raises when
  an entry does not fit.
\<close>

definition seq_lengths :: "int list \<Rightarrow> int list" where
  "seq_lengths lengths = map (\<lambda>i. i - 1) lengths"

definition int64_tensor :: "int list \<Rightarrow> error + int list" where
  "int64_tensor xs =
     (if list_all (\<lambda>x. - (2 ^ 63) \<le> x \<and> x < 2 ^ 63) xs then Inr xs else Inl OverflowError)"

text \<open>
  \<^verbatim>\<open>rnn_utils.pad_sequence(sequences, batch_first=True)\<close> of torch: an empty list of
  sequences is refused; otherwise every sequence is filled at its end with the padding
  row (the zero row \<open>pad\<close>) up to the longest length of the batch.
\<close>

definition max_len :: "'r list list \<Rightarrow> nat" where
  "max_len sequences = fold max (map length sequences) 0"

definition pad_sequence :: "'r \<Rightarrow> 'r list list \<Rightarrow> error + 'r list list" where
  "pad_sequence pad sequences =
     (if sequences = [] then Inl EmptySequenceList
      else Inr (map (\<lambda>s. s @ replicate (max_len sequences - length s) pad) sequences))"

text \<open>
  \<^verbatim>\<open>rnn_utils.pack_padded_sequence(input, lengths, batch_first=True)[0]\<close> of torch,
  with its default \<^verbatim>\<open>enforce_sorted=True\<close>. The library refuses an empty tensor, a
  lengths vector of another size than the batch, a last length that is not positive and
  lengths that are not in decreasing order. Then it walks the lengths from the last to
  the first; whenever the length \<open>l\<close> exceeds the previous one \<open>prev_l\<close> it emits the time
  steps \<open>prev_l ..< l\<close> of the first \<open>batch_size - i\<close> rows of the batch, time step by time step
  (the slice of the time dimension is clamped to the tensor, like every slice). On which
  device the lengths live (line 142 moves them) is left out, and so is the memory: the
  library allocates one counter for each time step up to the first length, and a run in
  which an allocation fails is outside the model. The theorems below that conclude a result
  bound every length by the number of embedding rows.
\<close>

definition time_dim :: "'r list list \<Rightarrow> nat" where
  "time_dim input = (case input of [] \<Rightarrow> 0 | row # _ \<Rightarrow> length row)"

definition time_steps :: "'r list list \<Rightarrow> nat \<Rightarrow> nat \<Rightarrow> nat \<Rightarrow> 'r list" where
  "time_steps input prev_l l current_batch_size =
     concat (map (\<lambda>t. map (\<lambda>b. input ! b ! t) [0..<current_batch_size])
                 [min prev_l (time_dim input)..<min l (time_dim input)])"

fun pack_loop :: "'r list list \<Rightarrow> nat \<Rightarrow> int \<Rightarrow> int list \<Rightarrow> 'r list" where
  "pack_loop input i prev_l [] = []"
| "pack_loop input i prev_l (l # ls) =
     (if l > prev_l
      then time_steps input (nat prev_l) (nat l) (length input - i) @ pack_loop input (Suc i) l ls
      else pack_loop input (Suc i) prev_l ls)"

definition pack_padded_sequence :: "'r list list \<Rightarrow> int list \<Rightarrow> error + 'r list" where
  "pack_padded_sequence input lengths =
     (if input = [] \<or> time_dim input = 0 then Inl CannotPackEmpty
      else if length lengths \<noteq> length input then Inl LengthsBatchMismatch
      else if last lengths \<le> 0 then Inl LengthNotPositive
      else if \<not> sorted_wrt (\<ge>) lengths then Inl LengthsNotSorted
      else Inr (pack_loop input 0 0 (rev lengths)))"

section \<open>The sequence batch builder\<close>

text \<open>
  Lines 116-148 of the train phase, repeated word for word at lines 205-237 of the
  validation phase: the four padded tensors, the tensor of the effective lengths, and the
  two target tensors packed. An exception of a library call ends the builder with that
  error.
\<close>

record 'r batch_tensors =
  f_input_embs :: "'r list list"
  b_input_embs :: "'r list list"
  f_target_embs :: "'r list"
  b_target_embs :: "'r list"
  eff_lengths :: "int list"

text \<open>The four calls of \<^verbatim>\<open>pad_sequence\<close>, lines 122, 125, 135 and 138.\<close>

definition f_input_padded :: "'r \<Rightarrow> 'r list \<Rightarrow> int list \<Rightarrow> error + 'r list list" where
  "f_input_padded pad emb_seqs lengths = pad_sequence pad (input_emb_list emb_seqs lengths)"

definition b_target_padded :: "'r \<Rightarrow> 'r list \<Rightarrow> int list \<Rightarrow> error + 'r list list" where
  "b_target_padded pad emb_seqs lengths =
     pad_sequence pad (map flip_tensor (input_emb_list emb_seqs lengths))"

definition f_target_padded :: "'r \<Rightarrow> 'r list \<Rightarrow> int list \<Rightarrow> error + 'r list list" where
  "f_target_padded pad emb_seqs lengths = pad_sequence pad (target_emb_list emb_seqs lengths)"

definition b_input_padded :: "'r \<Rightarrow> 'r list \<Rightarrow> int list \<Rightarrow> error + 'r list list" where
  "b_input_padded pad emb_seqs lengths =
     pad_sequence pad (map flip_tensor (target_emb_list emb_seqs lengths))"

definition build_batch :: "'r \<Rightarrow> 'r list \<Rightarrow> int list \<Rightarrow> error + 'r batch_tensors" where
  "build_batch pad emb_seqs lengths =
     (case f_input_padded pad emb_seqs lengths of Inl e \<Rightarrow> Inl e
      | Inr f_input \<Rightarrow>
     (case b_target_padded pad emb_seqs lengths of Inl e \<Rightarrow> Inl e
      | Inr b_target_pad \<Rightarrow>
     (case f_target_padded pad emb_seqs lengths of Inl e \<Rightarrow> Inl e
      | Inr f_target_pad \<Rightarrow>
     (case b_input_padded pad emb_seqs lengths of Inl e \<Rightarrow> Inl e
      | Inr b_input \<Rightarrow>
     (case int64_tensor (seq_lengths lengths) of Inl e \<Rightarrow> Inl e
      | Inr seq_lens \<Rightarrow>
     (case pack_padded_sequence f_target_pad seq_lens of Inl e \<Rightarrow> Inl e
      | Inr f_target \<Rightarrow>
     (case pack_padded_sequence b_target_pad seq_lens of Inl e \<Rightarrow> Inl e
      | Inr b_target \<Rightarrow>
        Inr \<lparr>f_input_embs = f_input, b_input_embs = b_input, f_target_embs = f_target,
             b_target_embs = b_target, eff_lengths = seq_lens\<rparr>)))))))"

text \<open>
  The running offset of the outfit at position \<open>i\<close>: the sum of the lengths before it.
\<close>

definition offset :: "int list \<Rightarrow> nat \<Rightarrow> nat" where
  "offset lengths i = nat (sum_list (take i lengths))"

text \<open>
  The order in which the packed data lists the rows of a batch of sequences, written
  directly: time step by time step, and within a time step the sequences that are long
  enough, in batch order. For comparison, the row-major order is \<open>concat\<close>.
\<close>

definition time_major :: "'r list list \<Rightarrow> 'r list" where
  "time_major seqs =
     concat (map (\<lambda>t. map (\<lambda>s. s ! t) (filter (\<lambda>s. t < length s) seqs)) [0..<max_len seqs])"

section \<open>The retrieval scorer\<close>

text \<open>
  From here on a row is a vector, a list of numbers. The numbers stay abstract (any type
  with \<open>0\<close>, \<open>+\<close> and \<open>*\<close>): the claims are about shapes, order and control flow, not about
  rounding. \<^verbatim>\<open>torch.matmul(output, target.t())\<close> (lines 151 and 154) has at position
  \<open>(i, j)\<close> the dot product of row \<open>i\<close> of the output and row \<open>j\<close> of the target; the library
  refuses operands whose inner dimensions differ. No other check stands in the source.
\<close>

definition dot :: "'a::semiring_0 list \<Rightarrow> 'a list \<Rightarrow> 'a" where
  "dot x y = sum_list (map2 (*) x y)"

definition similarity :: "'a::semiring_0 list list \<Rightarrow> 'a list list \<Rightarrow> error + 'a list list" where
  "similarity output target =
     (if list_ex (\<lambda>out. list_ex (\<lambda>tg. length out \<noteq> length tg) target) output
      then Inl ShapeMismatch
      else Inr (map (\<lambda>out. map (\<lambda>tg. dot out tg) target) output))"

text \<open>\<^verbatim>\<open>torch.arange(n)\<close>: the labels \<open>0, ..., n - 1\<close>.\<close>

definition arange :: "nat \<Rightarrow> nat list" where
  "arange n = [0..<n]"

section \<open>The training and validation loop\<close>

text \<open>
  The three parameter owners, and the collaborators the script takes as given: the image
  encoder and the recurrent encoder (class \<^verbatim>\<open>LSTMModel\<close>, whose forward pass may raise),
  each a function of its parameters, its train/eval flag and its input; the cross-entropy
  criterion; the effect of lines 158-163 (zeroing the gradients, backpropagating the loss,
  clipping the gradient norm at 0.5 and the step of SGD with momentum) on the optimizer's
  buffers and on the parameters, at the learning rate that the schedule holds after the
  given number of its steps; and the two data loaders, the shuffled one by epoch.
\<close>

datatype model = EncoderCNN | FRnn | BRnn

record 'img batch =
  batch_lengths :: "int list"
  batch_images :: "'img"

record ('img, 'p, 'o, 'a) env =
  encoder_cnn :: "'p \<Rightarrow> bool \<Rightarrow> 'img \<Rightarrow> 'a list list"
  rnn :: "'p \<Rightarrow> bool \<Rightarrow> 'a list list list \<Rightarrow> int list \<Rightarrow> error + 'a list list"
  criterion :: "'a list list \<Rightarrow> nat list \<Rightarrow> error + 'a"
  optimizer_update :: "nat \<Rightarrow> 'o \<Rightarrow> (model \<Rightarrow> 'p) \<Rightarrow> 'img batch \<Rightarrow> 'o \<times> (model \<Rightarrow> 'p)"
  train_loader :: "nat \<Rightarrow> 'img batch list"
  val_loader :: "'img batch list"
  epochs :: int
  comment :: string

definition emb_size :: nat where
  "emb_size = 512"

definition log_step :: nat where
  "log_step = 50"

text \<open>
  What the script does to the world outside, one event for each call, in the order of the
  calls. \<open>Forward m g\<close> is a forward pass of model \<open>m\<close>, with gradient tracking enabled
  (\<open>g\<close>) or inside \<^verbatim>\<open>torch.no_grad()\<close>; \<open>Backward x\<close> is \<^verbatim>\<open>x.backward()\<close>; \<open>LogStep\<close> and
  \<open>LogEpoch\<close> are the two kinds of log lines, the latter carrying the total loss and the
  batch count whose quotient it prints; \<open>Save m f\<close> is \<^verbatim>\<open>torch.save\<close> of the parameters
  of \<open>m\<close> into the file \<open>f\<close>.
\<close>

datatype phase = Train | Valid

datatype 'a event =
    SchedulerStep
  | SetTraining model bool
  | Forward model bool
  | ZeroGrad model
  | Backward 'a
  | ClipGradNorm
  | OptimizerStep
  | LogStep nat nat 'a 'a 'a
  | LogEpoch phase nat 'a nat
  | Save model string

record ('p, 'o, 'a) state =
  params :: "model \<Rightarrow> 'p"
  training :: "model \<Rightarrow> bool"
  momentum :: 'o
  scheduler_steps :: nat
  files :: "string \<Rightarrow> 'p option"
  trace :: "'a event list"

record 'a losses =
  f_loss :: 'a
  b_loss :: 'a
  all_loss :: 'a

text \<open>
  The padding row of \<^verbatim>\<open>pad_sequence\<close>: zeros in the trailing dimension of the embedding
  tensor, which is \<^verbatim>\<open>emb_size\<close> by the construction of the encoder (line 61).
\<close>

definition pad_row :: "'a::zero list list \<Rightarrow> 'a list" where
  "pad_row emb_seqs = replicate (case emb_seqs of [] \<Rightarrow> emb_size | row # _ \<Rightarrow> length row) 0"

text \<open>
  Lines 150-152, and alike 153-155, 240-242 and 243-245: the encoder output, the score
  matrix and the criterion against the labels \<^verbatim>\<open>arange(score.shape[0])\<close>.
\<close>

definition direction_loss ::
  "('img, 'p, 'o, 'a::semiring_0) env \<Rightarrow> 'p \<Rightarrow> bool \<Rightarrow> 'a list list list \<Rightarrow> int list \<Rightarrow> 'a list list
     \<Rightarrow> error + 'a" where
  "direction_loss env p mode input_embs lens target_embs =
     (case rnn env p mode input_embs lens of Inl e \<Rightarrow> Inl e
      | Inr output \<Rightarrow>
     (case similarity output target_embs of Inl e \<Rightarrow> Inl e
      | Inr score \<Rightarrow> criterion env score (arange (length score))))"

text \<open>Lines 112-156: the forward computation of a train step.\<close>

definition train_forward ::
  "('img, 'p, 'o, 'a::semiring_0) env \<Rightarrow> ('p, 'o, 'a) state \<Rightarrow> 'img batch \<Rightarrow> error + 'a losses" where
  "train_forward env st input_data =
     (let emb_seqs = encoder_cnn env (params st EncoderCNN) (training st EncoderCNN)
                       (batch_images input_data)
      in case build_batch (pad_row emb_seqs) emb_seqs (batch_lengths input_data) of Inl e \<Rightarrow> Inl e
      | Inr t \<Rightarrow>
     (case direction_loss env (params st FRnn) (training st FRnn)
             (f_input_embs t) (eff_lengths t) (f_target_embs t) of Inl e \<Rightarrow> Inl e
      | Inr fl \<Rightarrow>
     (case direction_loss env (params st BRnn) (training st BRnn)
             (b_input_embs t) (eff_lengths t) (b_target_embs t) of Inl e \<Rightarrow> Inl e
      | Inr bl \<Rightarrow> Inr \<lparr>f_loss = fl, b_loss = bl, all_loss = fl + bl\<rparr>)))"

text \<open>Lines 200-246: the forward computation of a validation step.\<close>

definition valid_forward ::
  "('img, 'p, 'o, 'a::semiring_0) env \<Rightarrow> ('p, 'o, 'a) state \<Rightarrow> 'img batch \<Rightarrow> error + 'a losses" where
  "valid_forward env st input_data =
     (let emb_seqs = encoder_cnn env (params st EncoderCNN) (training st EncoderCNN)
                       (batch_images input_data)
      in case build_batch (pad_row emb_seqs) emb_seqs (batch_lengths input_data) of Inl e \<Rightarrow> Inl e
      | Inr t \<Rightarrow>
     (case direction_loss env (params st FRnn) (training st FRnn)
             (f_input_embs t) (eff_lengths t) (f_target_embs t) of Inl e \<Rightarrow> Inl e
      | Inr fl \<Rightarrow>
     (case direction_loss env (params st BRnn) (training st BRnn)
             (b_input_embs t) (eff_lengths t) (b_target_embs t) of Inl e \<Rightarrow> Inl e
      | Inr bl \<Rightarrow> Inr \<lparr>f_loss = fl, b_loss = bl, all_loss = fl + bl\<rparr>)))"

text \<open>
  Lines 111-177, the body of the train loop for the batch with the number \<open>batch_num\<close>:
  the forward computation with gradient tracking, the gradient step, the running total
  of the loss, and a log line at every \<^verbatim>\<open>log_step\<close>-th batch. An exception ends the run.
\<close>

definition train_batch ::
  "('img, 'p, 'o, 'a::semiring_0) env \<Rightarrow> nat \<Rightarrow> nat \<Rightarrow> ('p, 'o, 'a) state \<times> 'a \<Rightarrow> 'img batch
     \<Rightarrow> error + ('p, 'o, 'a) state \<times> 'a" where
  "train_batch env epoch batch_num acc input_data =
     (case acc of (st, total_loss) \<Rightarrow>
     (case train_forward env st input_data of Inl e \<Rightarrow> Inl e
      | Inr l \<Rightarrow>
     (case optimizer_update env (scheduler_steps st) (momentum st) (params st) input_data of
        (m, p) \<Rightarrow>
          Inr (st\<lparr>params := p, momentum := m,
                  trace := trace st
                    @ [Forward EncoderCNN True, Forward FRnn True, Forward BRnn True,
                       ZeroGrad EncoderCNN, ZeroGrad FRnn, ZeroGrad BRnn,
                       Backward (all_loss l), ClipGradNorm, OptimizerStep]
                    @ (if batch_num mod log_step = 0
                       then [LogStep epoch batch_num (f_loss l) (b_loss l) (all_loss l)]
                       else [])\<rparr>,
               total_loss + all_loss l))))"

text \<open>
  \<^verbatim>\<open>for batch_num, input_data in enumerate(train_loader, 1)\<close>: \<open>k\<close> is the number of the
  next batch, and the variable \<^verbatim>\<open>batch_num\<close> is unbound (\<open>None\<close>) until a first batch
  has bound it; it keeps its last value after the loop.
\<close>

fun train_loop ::
  "('img, 'p, 'o, 'a::semiring_0) env \<Rightarrow> nat \<Rightarrow> nat \<Rightarrow> ('p, 'o, 'a) state \<times> 'a \<Rightarrow> nat option
     \<Rightarrow> 'img batch list \<Rightarrow> error + (('p, 'o, 'a) state \<times> 'a) \<times> nat option" where
  "train_loop env epoch k acc batch_num [] = Inr (acc, batch_num)"
| "train_loop env epoch k acc batch_num (input_data # rest) =
     (case train_batch env epoch k acc input_data of Inl e \<Rightarrow> Inl e
      | Inr acc' \<Rightarrow> train_loop env epoch (Suc k) acc' (Some k) rest)"

text \<open>
  Lines 199-248, the body of the validation loop: the forward computation inside
  \<^verbatim>\<open>torch.no_grad()\<close> and the running total of the loss.
\<close>

definition valid_batch ::
  "('img, 'p, 'o, 'a::semiring_0) env \<Rightarrow> ('p, 'o, 'a) state \<times> 'a \<Rightarrow> 'img batch
     \<Rightarrow> error + ('p, 'o, 'a) state \<times> 'a" where
  "valid_batch env acc input_data =
     (case acc of (st, total_loss) \<Rightarrow>
     (case valid_forward env st input_data of Inl e \<Rightarrow> Inl e
      | Inr l \<Rightarrow>
          Inr (st\<lparr>trace := trace st
                    @ [Forward EncoderCNN False, Forward FRnn False, Forward BRnn False]\<rparr>,
               total_loss + all_loss l)))"

fun valid_loop ::
  "('img, 'p, 'o, 'a::semiring_0) env \<Rightarrow> nat \<Rightarrow> ('p, 'o, 'a) state \<times> 'a \<Rightarrow> nat option
     \<Rightarrow> 'img batch list \<Rightarrow> error + (('p, 'o, 'a) state \<times> 'a) \<times> nat option" where
  "valid_loop env k acc batch_num [] = Inr (acc, batch_num)"
| "valid_loop env k acc batch_num (input_data # rest) =
     (case valid_batch env acc input_data of Inl e \<Rightarrow> Inl e
      | Inr acc' \<Rightarrow> valid_loop env (Suc k) acc' (Some k) rest)"

text \<open>The names of the checkpoint files, lines 184, 187 and 191.\<close>

definition checkpoint :: "model \<Rightarrow> string \<Rightarrow> string" where
  "checkpoint m suffix =
     (case m of FRnn \<Rightarrow> ''f_rnn'' | BRnn \<Rightarrow> ''b_rnn'' | EncoderCNN \<Rightarrow> ''encoder_cnn'')
     @ suffix @ ''.pth''"

text \<open>
  Lines 105-110, the start of an epoch: the step of the schedule, then the three models
  in train mode.
\<close>

definition begin_epoch :: "('p, 'o, 'a) state \<Rightarrow> ('p, 'o, 'a) state" where
  "begin_epoch st =
     st\<lparr>scheduler_steps := Suc (scheduler_steps st),
        training := (\<lambda>m. True),
        trace := trace st
          @ [SchedulerStep, SetTraining EncoderCNN True, SetTraining FRnn True,
             SetTraining BRnn True]\<rparr>"

text \<open>
  Lines 179-198, between the two loops: the log line of the train phase, the three
  checkpoints written over the files of the epoch before, and the three models in eval
  mode.
\<close>

definition end_train_phase ::
  "string \<Rightarrow> nat \<Rightarrow> 'a \<Rightarrow> nat \<Rightarrow> ('p, 'o, 'a) state \<Rightarrow> ('p, 'o, 'a) state" where
  "end_train_phase suffix epoch total_loss batch_num st =
     st\<lparr>files := (files st)
          (checkpoint FRnn suffix \<mapsto> params st FRnn,
           checkpoint BRnn suffix \<mapsto> params st BRnn,
           checkpoint EncoderCNN suffix \<mapsto> params st EncoderCNN),
        training := (\<lambda>m. False),
        trace := trace st
          @ [LogEpoch Train epoch total_loss batch_num,
             Save FRnn (checkpoint FRnn suffix), Save BRnn (checkpoint BRnn suffix),
             Save EncoderCNN (checkpoint EncoderCNN suffix),
             SetTraining EncoderCNN False, SetTraining FRnn False, SetTraining BRnn False]\<rparr>"

text \<open>
  Lines 105-252, one epoch. Reading \<^verbatim>\<open>batch_num\<close> at line 180 or 251 while no batch
  has bound it raises.
\<close>

definition train_epoch ::
  "('img, 'p, 'o, 'a::semiring_0) env \<Rightarrow> nat \<Rightarrow> ('p, 'o, 'a) state \<times> nat option
     \<Rightarrow> error + ('p, 'o, 'a) state \<times> nat option" where
  "train_epoch env epoch acc =
     (case acc of (st, batch_num) \<Rightarrow>
     (case train_loop env epoch 1 (begin_epoch st, 0) batch_num (train_loader env epoch) of
        Inl e \<Rightarrow> Inl e
      | Inr ((st2, total_loss), batch_num2) \<Rightarrow>
     (case batch_num2 of None \<Rightarrow> Inl UnboundLocalError
      | Some n \<Rightarrow>
     (case valid_loop env 1 (end_train_phase (comment env) epoch total_loss n st2, 0)
             batch_num2 (val_loader env) of
        Inl e \<Rightarrow> Inl e
      | Inr ((st4, total_loss4), batch_num4) \<Rightarrow>
     (case batch_num4 of None \<Rightarrow> Inl UnboundLocalError
      | Some n4 \<Rightarrow>
          Inr (st4\<lparr>trace := trace st4 @ [LogEpoch Valid epoch total_loss4 n4]\<rparr>,
               batch_num4))))))"

text \<open>Line 104 and the function \<^verbatim>\<open>train\<close>: the epochs \<open>1, ..., epochs\<close> in turn.\<close>

fun epoch_loop ::
  "('img, 'p, 'o, 'a::semiring_0) env \<Rightarrow> ('p, 'o, 'a) state \<times> nat option \<Rightarrow> nat list
     \<Rightarrow> error + ('p, 'o, 'a) state \<times> nat option" where
  "epoch_loop env acc [] = Inr acc"
| "epoch_loop env acc (epoch # rest) =
     (case train_epoch env epoch acc of Inl e \<Rightarrow> Inl e
      | Inr acc' \<Rightarrow> epoch_loop env acc' rest)"

definition train ::
  "('img, 'p, 'o, 'a::semiring_0) env \<Rightarrow> ('p, 'o, 'a) state \<Rightarrow> error + ('p, 'o, 'a) state" where
  "train env st =
     (case epoch_loop env (st, None) [1..<nat (epochs env + 1)] of Inl e \<Rightarrow> Inl e
      | Inr (st', batch_num) \<Rightarrow> Inr st')"

text \<open>The values on which \<^verbatim>\<open>backward()\<close> was called, in the order of the calls.\<close>

definition backpropagated :: "'a event list \<Rightarrow> 'a list" where
  "backpropagated evs = concat (map (\<lambda>e. case e of Backward x \<Rightarrow> [x] | _ \<Rightarrow> []) evs)"

section \<open>Slices and the two loops\<close>

lemma slice_in_range:
  assumes "0 \<le> a" "a \<le> b" "b \<le> int (length t)"
  shows "slice t a b = map ((!) t) [nat a..<nat b]"
proof -
  have lo: "slice_bound (length t) a = nat a" and hi: "slice_bound (length t) b = nat b"
    using assms by (auto simp: slice_bound_def)
  have "take (nat b - nat a) (drop (nat a) t) = map ((!) t) [nat a..<nat b]"
  proof (rule nth_equalityI)
    show "length (take (nat b - nat a) (drop (nat a) t)) = length (map ((!) t) [nat a..<nat b])"
      using assms by auto
  next
    fix i assume "i < length (take (nat b - nat a) (drop (nat a) t))"
    then show "take (nat b - nat a) (drop (nat a) t) ! i = map ((!) t) [nat a..<nat b] ! i"
      using assms by auto
  qed
  then show ?thesis by (simp add: slice_def lo hi)
qed

lemma slice_empty: "slice t a a = []"
  by (simp add: slice_def)

lemma input_emb_loop_length: "length (input_emb_loop e start ls) = length ls"
  by (induction ls arbitrary: start) auto

lemma target_emb_loop_length: "length (target_emb_loop e start ls) = length ls"
  by (induction ls arbitrary: start) auto

lemma input_emb_loop_nth:
  "i < length ls \<Longrightarrow> input_emb_loop e start ls ! i =
     slice e (start + sum_list (take i ls)) (start + sum_list (take i ls) + ls ! i - 1)"
proof (induction ls arbitrary: start i)
  case Nil
  then show ?case by simp
next
  case (Cons l ls)
  show ?case
  proof (cases i)
    case 0
    then show ?thesis by simp
  next
    case (Suc j)
    with Cons.prems have "j < length ls" by simp
    from Cons.IH [OF this, of "start + l"] Suc show ?thesis
      by (simp add: add.assoc)
  qed
qed

lemma target_emb_loop_nth:
  "i < length ls \<Longrightarrow> target_emb_loop e start ls ! i =
     slice e (start + sum_list (take i ls) + 1) (start + sum_list (take i ls) + ls ! i)"
proof (induction ls arbitrary: start i)
  case Nil
  then show ?case by simp
next
  case (Cons l ls)
  show ?case
  proof (cases i)
    case 0
    then show ?thesis by simp
  next
    case (Suc j)
    with Cons.prems have "j < length ls" by simp
    from Cons.IH [OF this, of "start + l"] Suc show ?thesis
      by (simp add: add.assoc)
  qed
qed

lemma sum_list_take_bounds:
  assumes "\<forall>L\<in>set ls. (0::int) \<le> L" "i < length ls"
  shows "0 \<le> sum_list (take i ls)" "sum_list (take i ls) + ls ! i \<le> sum_list ls"
proof -
  have nn: "\<And>xs. set xs \<subseteq> set ls \<Longrightarrow> 0 \<le> sum_list xs"
    using assms(1) by (simp add: subset_code(1) sum_list_nonneg)
  show "0 \<le> sum_list (take i ls)" by (rule nn) (rule set_take_subset)
  have "ls = take i ls @ ls ! i # drop (Suc i) ls"
    using assms(2) by (simp add: id_take_nth_drop)
  then have "sum_list ls = sum_list (take i ls) + ls ! i + sum_list (drop (Suc i) ls)"
    by (metis add.assoc sum_list.Cons sum_list.append)
  moreover have "0 \<le> sum_list (drop (Suc i) ls)" by (rule nn) (rule set_drop_subset)
  ultimately show "sum_list (take i ls) + ls ! i \<le> sum_list ls" by simp
qed

section \<open>Reversal, padding and packing\<close>

lemma flip_tensor_rev: "flip_tensor t = rev t"
  by (simp add: flip_tensor_def rev_map [symmetric] map_nth)

lemma max_len_Max: "max_len seqs = Max (set (0 # map length seqs))"
  by (simp only: max_len_def Max.set_eq_fold)

lemma max_len_ge: "s \<in> set seqs \<Longrightarrow> length s \<le> max_len seqs"
  by (simp add: max_len_Max)

lemma max_len_flip: "max_len (map flip_tensor seqs) = max_len seqs"
  by (simp add: max_len_def flip_tensor_rev comp_def)

lemma max_len_pos: "s \<in> set seqs \<Longrightarrow> s \<noteq> [] \<Longrightarrow> 0 < max_len seqs"
  using max_len_ge [of s seqs] by (cases s) auto

lemma pad_sequence_ok:
  "seqs \<noteq> [] \<Longrightarrow>
   pad_sequence pad seqs = Inr (map (\<lambda>s. s @ replicate (max_len seqs - length s) pad) seqs)"
  by (simp add: pad_sequence_def)

lemma input_emb_list_length [simp]: "length (input_emb_list e ls) = length ls"
  by (simp add: input_emb_list_def input_emb_loop_length)

lemma target_emb_list_length [simp]: "length (target_emb_list e ls) = length ls"
  by (simp add: target_emb_list_def target_emb_loop_length)

lemma input_emb_list_Nil [simp]: "input_emb_list e ls = [] \<longleftrightarrow> ls = []"
  using input_emb_list_length [of e ls] by (metis length_0_conv)

lemma target_emb_list_Nil [simp]: "target_emb_list e ls = [] \<longleftrightarrow> ls = []"
  using target_emb_list_length [of e ls] by (metis length_0_conv)

lemma time_dim_padded:
  assumes "seqs \<noteq> []"
  shows "time_dim (map (\<lambda>s. s @ replicate (max_len seqs - length s) pad) seqs) = max_len seqs"
proof -
  obtain s ss where "seqs = s # ss" using assms by (cases seqs) auto
  then show ?thesis using max_len_ge [of s seqs] by (simp add: time_dim_def)
qed

lemma sorted_desc_last_le:
  "sorted_wrt (\<ge>) (xs :: int list) \<Longrightarrow> x \<in> set xs \<Longrightarrow> last xs \<le> x"
  by (induction xs) (auto split: if_splits)

lemma pack_nonpositive:
  assumes "l \<in> set lens" "l \<le> 0"
  shows "isl (pack_padded_sequence inp lens)"
proof (cases "sorted_wrt (\<ge>) lens")
  case True
  from sorted_desc_last_le [OF True assms(1)] assms(2) have "last lens \<le> 0" by simp
  then show ?thesis by (simp add: pack_padded_sequence_def)
next
  case False
  then show ?thesis by (simp add: pack_padded_sequence_def)
qed

lemma pack_unsorted:
  "\<not> sorted_wrt (\<ge>) lens \<Longrightarrow> isl (pack_padded_sequence inp lens)"
  by (simp add: pack_padded_sequence_def)

lemma pack_ok:
  assumes "inp \<noteq> []" "time_dim inp \<noteq> 0" "length lens = length inp" "0 < last lens"
    "sorted_wrt (\<ge>) lens"
  shows "pack_padded_sequence inp lens = Inr (pack_loop inp 0 0 (rev lens))"
  using assms by (simp add: pack_padded_sequence_def)

lemma int64_tensor_cases:
  "int64_tensor xs = Inr xs \<or> int64_tensor xs = Inl OverflowError"
  by (simp add: int64_tensor_def)

lemma int64_tensor_seq_lengths:
  assumes "\<forall>L\<in>set lengths. 2 \<le> L \<and> L \<le> int n" and "n < 2 ^ 63"
  shows "int64_tensor (seq_lengths lengths) = Inr (seq_lengths lengths)"
proof -
  have n: "int n < 2 ^ 63" using assms(2) by (metis of_nat_less_iff of_nat_numeral of_nat_power)
  have "- (2 ^ 63) \<le> L - 1 \<and> L - 1 < 2 ^ 63" if "L \<in> set lengths" for L
    using assms(1) n that by fastforce
  then show ?thesis
    by (simp add: int64_tensor_def seq_lengths_def list_all_iff)
qed

lemma build_batch_unfold:
  assumes "lengths \<noteq> []"
  shows "build_batch pad emb_seqs lengths =
    (case int64_tensor (seq_lengths lengths) of Inl e \<Rightarrow> Inl e
     | Inr seq_lens \<Rightarrow>
    (case pack_padded_sequence
            (map (\<lambda>s. s @ replicate (max_len (target_emb_list emb_seqs lengths) - length s) pad)
                 (target_emb_list emb_seqs lengths)) seq_lens of
       Inl e \<Rightarrow> Inl e
     | Inr f_target \<Rightarrow>
    (case pack_padded_sequence
            (map (\<lambda>s. rev s @ replicate (max_len (input_emb_list emb_seqs lengths) - length s) pad)
                 (input_emb_list emb_seqs lengths)) seq_lens of
       Inl e \<Rightarrow> Inl e
     | Inr b_target \<Rightarrow>
        Inr \<lparr>f_input_embs =
               map (\<lambda>s. s @ replicate (max_len (input_emb_list emb_seqs lengths) - length s) pad)
                   (input_emb_list emb_seqs lengths),
             b_input_embs =
               map (\<lambda>s. rev s @ replicate (max_len (target_emb_list emb_seqs lengths) - length s) pad)
                   (target_emb_list emb_seqs lengths),
             f_target_embs = f_target, b_target_embs = b_target,
             eff_lengths = seq_lens\<rparr>)))"
  using assms
  by (simp add: build_batch_def f_input_padded_def b_target_padded_def
        f_target_padded_def b_input_padded_def pad_sequence_ok max_len_flip
        flip_tensor_rev comp_def)

lemma build_batch_Nil: "build_batch pad emb_seqs [] = Inl EmptySequenceList"
  by (simp add: build_batch_def f_input_padded_def pad_sequence_def input_emb_list_def)

lemma build_batch_pack_error:
  assumes "\<And>inp :: 'a list list. isl (pack_padded_sequence inp (seq_lengths lengths))"
  shows "isl (build_batch (pad :: 'a) emb_seqs lengths)"
proof (cases "lengths = []")
  case True
  then show ?thesis by (simp add: build_batch_Nil)
next
  case False
  let ?ft = "map (\<lambda>s. s @ replicate (max_len (target_emb_list emb_seqs lengths) - length s) pad)
                 (target_emb_list emb_seqs lengths)"
  from assms [of ?ft] obtain e where "pack_padded_sequence ?ft (seq_lengths lengths) = Inl e"
    by (auto simp: isl_def)
  then show ?thesis
    using int64_tensor_cases [of "seq_lengths lengths"]
    by (auto simp: build_batch_unfold [OF False])
qed

lemma seq_lengths_unsorted_error:
  assumes "\<not> sorted_wrt (\<ge>) (seq_lengths lengths)"
  shows "isl (build_batch pad emb_seqs lengths)"
  by (rule build_batch_pack_error) (rule pack_unsorted [OF assms])

lemma short_outfit_pack_error:
  assumes "L \<in> set lengths" "L < 2"
  shows "isl (pack_padded_sequence inp (seq_lengths lengths))"
proof -
  have "L - 1 \<in> set (seq_lengths lengths)" using assms(1) by (auto simp: seq_lengths_def)
  moreover have "L - 1 \<le> 0" using assms(2) by simp
  ultimately show ?thesis by (rule pack_nonpositive)
qed

lemma seq_lengths_sorted:
  "sorted_wrt (\<ge>) (seq_lengths lengths) \<longleftrightarrow> sorted_wrt (\<ge>) lengths"
proof -
  have "(\<lambda>x y :: int. y - 1 \<le> x - 1) = (\<lambda>x y. y \<le> x)" by (intro ext) auto
  then show ?thesis by (simp add: seq_lengths_def sorted_wrt_map)
qed

lemma seq_lengths_last:
  "lengths \<noteq> [] \<Longrightarrow> last (seq_lengths lengths) = last lengths - 1"
  by (simp add: seq_lengths_def last_map)

lemma input_emb_list_nth:
  "i < length ls \<Longrightarrow> input_emb_list e ls ! i =
     slice e (sum_list (take i ls)) (sum_list (take i ls) + ls ! i - 1)"
  using input_emb_loop_nth [of i ls e 0] by (simp add: input_emb_list_def)

lemma target_emb_list_nth:
  "i < length ls \<Longrightarrow> target_emb_list e ls ! i =
     slice e (sum_list (take i ls) + 1) (sum_list (take i ls) + ls ! i)"
  using target_emb_loop_nth [of i ls e 0] by (simp add: target_emb_list_def)

lemma time_dim_padded_rev:
  assumes "seqs \<noteq> []"
  shows "time_dim (map (\<lambda>s. rev s @ replicate (max_len seqs - length s) pad) seqs) = max_len seqs"
proof -
  obtain s ss where "seqs = s # ss" using assms by (cases seqs) auto
  then show ?thesis using max_len_ge [of s seqs] by (simp add: time_dim_def)
qed

lemma first_sequences_nonempty:
  assumes "lengths \<noteq> []" "\<forall>L\<in>set lengths. 2 \<le> L" "2 \<le> length emb_seqs"
  shows "0 < max_len (input_emb_list emb_seqs lengths)"
    and "0 < max_len (target_emb_list emb_seqs lengths)"
proof -
  obtain L ls where ls: "lengths = L # ls" using assms(1) by (cases lengths) auto
  then have L: "2 \<le> L" using assms(2) by simp
  have "input_emb_list emb_seqs lengths ! 0 \<noteq> []"
    using L assms(3) by (auto simp: ls input_emb_list_def slice_def slice_bound_def)
  moreover have "input_emb_list emb_seqs lengths ! 0 \<in> set (input_emb_list emb_seqs lengths)"
    by (rule nth_mem) (simp add: ls)
  ultimately show "0 < max_len (input_emb_list emb_seqs lengths)"
    by (rule max_len_pos [rotated])
  have "target_emb_list emb_seqs lengths ! 0 \<noteq> []"
    using L assms(3) by (auto simp: ls target_emb_list_def slice_def slice_bound_def)
  moreover have "target_emb_list emb_seqs lengths ! 0 \<in> set (target_emb_list emb_seqs lengths)"
    by (rule nth_mem) (simp add: ls)
  ultimately show "0 < max_len (target_emb_list emb_seqs lengths)"
    by (rule max_len_pos [rotated])
qed

lemma seq_lengths_length [simp]: "length (seq_lengths lengths) = length lengths"
  by (simp add: seq_lengths_def)

lemma build_batch_ok:
  assumes "lengths \<noteq> []" "sorted_wrt (\<ge>) lengths" "\<forall>L\<in>set lengths. 2 \<le> L"
    "2 \<le> length emb_seqs" "int64_tensor (seq_lengths lengths) = Inr (seq_lengths lengths)"
  shows "build_batch pad emb_seqs lengths =
    Inr \<lparr>f_input_embs =
               map (\<lambda>s. s @ replicate (max_len (input_emb_list emb_seqs lengths) - length s) pad)
                   (input_emb_list emb_seqs lengths),
             b_input_embs =
               map (\<lambda>s. rev s @ replicate (max_len (target_emb_list emb_seqs lengths) - length s) pad)
                   (target_emb_list emb_seqs lengths),
             f_target_embs = pack_loop
               (map (\<lambda>s. s @ replicate (max_len (target_emb_list emb_seqs lengths) - length s) pad)
                 (target_emb_list emb_seqs lengths)) 0 0 (rev (seq_lengths lengths)),
             b_target_embs = pack_loop
               (map (\<lambda>s. rev s @ replicate (max_len (input_emb_list emb_seqs lengths) - length s) pad)
                 (input_emb_list emb_seqs lengths)) 0 0 (rev (seq_lengths lengths)),
             eff_lengths = seq_lengths lengths\<rparr>"
proof -
  have "last lengths \<in> set lengths" using assms(1) by simp
  then have "2 \<le> last lengths" using assms(3) by blast
  then have last: "0 < last (seq_lengths lengths)"
    using assms(1) by (simp add: seq_lengths_last)
  have srt: "sorted_wrt (\<ge>) (seq_lengths lengths)"
    using assms(2) by (simp add: seq_lengths_sorted)
  note pos = first_sequences_nonempty [OF assms(1,3,4)]
  let ?ft = "map (\<lambda>s. s @ replicate (max_len (target_emb_list emb_seqs lengths) - length s) pad)
                 (target_emb_list emb_seqs lengths)"
  let ?bt = "map (\<lambda>s. rev s @ replicate (max_len (input_emb_list emb_seqs lengths) - length s) pad)
                 (input_emb_list emb_seqs lengths)"
  have f: "pack_padded_sequence ?ft (seq_lengths lengths)
             = Inr (pack_loop ?ft 0 0 (rev (seq_lengths lengths)))"
    using assms(1) pos(2) last srt
    by (intro pack_ok) (simp_all add: time_dim_padded)
  have b: "pack_padded_sequence ?bt (seq_lengths lengths)
             = Inr (pack_loop ?bt 0 0 (rev (seq_lengths lengths)))"
    using assms(1) pos(1) last srt
    by (intro pack_ok) (simp_all add: time_dim_padded_rev)
  show ?thesis
    by (simp add: build_batch_unfold [OF assms(1)] assms(5) f b)
qed

section \<open>The claims about the batch builder\<close>

text \<open>
  Claim C1. For a batch whose lengths sum to the number of embedding rows and are all at
  least 2, the outfit at position \<open>i\<close>, of length \<open>L\<close> and at the running offset \<open>s\<close>
  (the sum of the lengths before it), lies inside the tensor; its forward input sequence is
  the rows \<open>s .. s + L - 2\<close>, its forward target sequence is the rows \<open>s + 1 .. s + L - 1\<close>,
  both have \<open>L - 1\<close> rows, and its effective length is \<open>L - 1\<close>.
\<close>

theorem slicing_by_running_offset:
  assumes "sum_list lengths = int (length emb_seqs)"
    and "\<forall>L\<in>set lengths. 2 \<le> L"
    and "i < length lengths"
  shows "offset lengths i + nat (lengths ! i) \<le> length emb_seqs
       \<and> input_emb_list emb_seqs lengths ! i =
           map ((!) emb_seqs) [offset lengths i..<offset lengths i + nat (lengths ! i) - 1]
       \<and> target_emb_list emb_seqs lengths ! i =
           map ((!) emb_seqs) [offset lengths i + 1..<offset lengths i + nat (lengths ! i)]
       \<and> length (input_emb_list emb_seqs lengths ! i) = nat (lengths ! i) - 1
       \<and> length (target_emb_list emb_seqs lengths ! i) = nat (lengths ! i) - 1
       \<and> seq_lengths lengths ! i = lengths ! i - 1"
proof -
  let ?s = "sum_list (take i lengths)" and ?L = "lengths ! i"
  have L2: "2 \<le> ?L" using assms(2,3) by simp
  have "\<forall>L\<in>set lengths. 0 \<le> L" using assms(2) by fastforce
  from sum_list_take_bounds [OF this assms(3)]
  have s0: "0 \<le> ?s" and sL: "?s + ?L \<le> int (length emb_seqs)"
    using assms(1) by simp_all
  have inp: "input_emb_list emb_seqs lengths ! i = slice emb_seqs ?s (?s + ?L - 1)"
    using input_emb_loop_nth [OF assms(3), of emb_seqs 0] by (simp add: input_emb_list_def)
  have tgt: "target_emb_list emb_seqs lengths ! i = slice emb_seqs (?s + 1) (?s + ?L)"
    using target_emb_loop_nth [OF assms(3), of emb_seqs 0] by (simp add: target_emb_list_def)
  have n1: "nat (?s + ?L - 1) = offset lengths i + nat ?L - 1"
    and n2: "nat (?s + 1) = offset lengths i + 1"
    and n3: "nat (?s + ?L) = offset lengths i + nat ?L"
    using s0 L2 by (simp_all add: offset_def nat_add_distrib nat_diff_distrib)
  have i1: "input_emb_list emb_seqs lengths ! i =
      map ((!) emb_seqs) [offset lengths i..<offset lengths i + nat ?L - 1]"
    using slice_in_range [of ?s "?s + ?L - 1" emb_seqs] s0 L2 sL
    by (simp add: inp n1 offset_def)
  have t1: "target_emb_list emb_seqs lengths ! i =
      map ((!) emb_seqs) [offset lengths i + 1..<offset lengths i + nat ?L]"
    using slice_in_range [of "?s + 1" "?s + ?L" emb_seqs] s0 L2 sL
    by (simp add: tgt n2 n3)
  have b: "offset lengths i + nat ?L \<le> length emb_seqs"
    using sL s0 L2 by (simp add: offset_def)
  have sl: "seq_lengths lengths ! i = ?L - 1"
    using assms(3) by (simp add: seq_lengths_def)
  show ?thesis
    using b i1 t1 sl by simp
qed


theorem slicing_by_running_offset_witness:
  "sum_list [4, 3] = int (length [10, 11, 12, 13, 14, 15, 16 :: int])
   \<and> (1::nat) < length [4, 3 :: int]
   \<and> input_emb_list [10, 11, 12, 13, 14, 15, 16 :: int] [4, 3] ! 1 = [14, 15]
   \<and> target_emb_list [10, 11, 12, 13, 14, 15, 16 :: int] [4, 3] ! 1 = [15, 16]
   \<and> seq_lengths [4, 3] ! 1 = 2"
  using slicing_by_running_offset [of "[4, 3]" "[10, 11, 12, 13, 14, 15, 16 :: int]" 1]
  by (simp add: offset_def upt_conv_Cons)

text \<open>
  Claim C3. For every outfit \<open>i\<close> of a batch, the four calls of \<^verbatim>\<open>pad_sequence\<close> succeed
  and row \<open>i\<close> of the padded backward target is the reverse of the outfit's forward input
  sequence followed by the padding, row \<open>i\<close> of the padded backward input is the reverse of
  its forward target sequence followed by the padding: the reversal acts on the unpadded
  sequence, and every padding row stands behind the valid rows.
\<close>

theorem backward_is_reversed_forward:
  assumes "i < length lengths"
  shows "\<exists>f_in b_tg f_tg b_in.
      f_input_padded pad emb_seqs lengths = Inr f_in
    \<and> b_target_padded pad emb_seqs lengths = Inr b_tg
    \<and> f_target_padded pad emb_seqs lengths = Inr f_tg
    \<and> b_input_padded pad emb_seqs lengths = Inr b_in
    \<and> f_in ! i = input_emb_list emb_seqs lengths ! i
          @ replicate (max_len (input_emb_list emb_seqs lengths)
                       - length (input_emb_list emb_seqs lengths ! i)) pad
    \<and> b_tg ! i = rev (input_emb_list emb_seqs lengths ! i)
          @ replicate (max_len (input_emb_list emb_seqs lengths)
                       - length (input_emb_list emb_seqs lengths ! i)) pad
    \<and> f_tg ! i = target_emb_list emb_seqs lengths ! i
          @ replicate (max_len (target_emb_list emb_seqs lengths)
                       - length (target_emb_list emb_seqs lengths ! i)) pad
    \<and> b_in ! i = rev (target_emb_list emb_seqs lengths ! i)
          @ replicate (max_len (target_emb_list emb_seqs lengths)
                       - length (target_emb_list emb_seqs lengths ! i)) pad"
proof -
  have ne: "lengths \<noteq> []" using assms by auto
  show ?thesis
    using assms ne
    by (simp add: f_input_padded_def b_target_padded_def f_target_padded_def
        b_input_padded_def pad_sequence_ok max_len_flip flip_tensor_rev)
qed

theorem backward_is_reversed_forward_witness:
  "(1::nat) < length [4, 3 :: int]
   \<and> (\<exists>f_in b_tg f_tg b_in.
      f_input_padded 0 [10, 11, 12, 13, 14, 15, 16 :: int] [4, 3] = Inr f_in
    \<and> b_target_padded 0 [10, 11, 12, 13, 14, 15, 16 :: int] [4, 3] = Inr b_tg
    \<and> f_target_padded 0 [10, 11, 12, 13, 14, 15, 16 :: int] [4, 3] = Inr f_tg
    \<and> b_input_padded 0 [10, 11, 12, 13, 14, 15, 16 :: int] [4, 3] = Inr b_in
    \<and> f_in ! 1 = [14, 15, 0] \<and> b_tg ! 1 = [15, 14, 0]
    \<and> f_tg ! 1 = [15, 16, 0] \<and> b_in ! 1 = [16, 15, 0])"
  using backward_is_reversed_forward [of 1 "[4, 3]" 0 "[10, 11, 12, 13, 14, 15, 16 :: int]"]
  by (simp add: input_emb_list_def target_emb_list_def slice_def slice_bound_def max_len_def)

text \<open>
  Claim C10. When the effective lengths of a batch are not in non-increasing order, the
  padding of the sequences succeeds and the packing of the padded forward targets and of the
  padded backward targets raises an error, so the builder ends with an error and produces
  no compacted targets.
\<close>

theorem unsorted_lengths_rejected:
  assumes "\<not> sorted_wrt (\<ge>) (seq_lengths lengths)"
  shows "(\<exists>f_tg b_tg.
            f_target_padded pad emb_seqs lengths = Inr f_tg
          \<and> b_target_padded pad emb_seqs lengths = Inr b_tg
          \<and> isl (pack_padded_sequence f_tg (seq_lengths lengths))
          \<and> isl (pack_padded_sequence b_tg (seq_lengths lengths)))
       \<and> isl (build_batch pad emb_seqs lengths)"
proof -
  have ne: "lengths \<noteq> []" using assms by (auto simp: seq_lengths_def)
  have "isl (pack_padded_sequence inp (seq_lengths lengths))" for inp :: "'a list list"
    by (rule pack_unsorted [OF assms])
  then show ?thesis
    using ne seq_lengths_unsorted_error [OF assms, of pad emb_seqs]
    by (simp add: f_target_padded_def b_target_padded_def pad_sequence_ok)
qed

theorem unsorted_lengths_rejected_witness:
  "(\<exists>f_tg b_tg.
            f_target_padded 0 [10, 11, 12, 13, 14, 15, 16 :: int] [3, 4] = Inr f_tg
          \<and> b_target_padded 0 [10, 11, 12, 13, 14, 15, 16 :: int] [3, 4] = Inr b_tg
          \<and> isl (pack_padded_sequence f_tg (seq_lengths [3, 4]))
          \<and> isl (pack_padded_sequence b_tg (seq_lengths [3, 4])))
   \<and> build_batch 0 [10, 11, 12, 13, 14, 15, 16 :: int] [3, 4] = Inl LengthsNotSorted"
proof -
  have h: "\<not> sorted_wrt (\<ge>) (seq_lengths [3, 4])" by (simp add: seq_lengths_def)
  have b: "build_batch 0 [10, 11, 12, 13, 14, 15, 16 :: int] [3, 4] = Inl LengthsNotSorted"
    by (simp add: build_batch_unfold int64_tensor_def pack_padded_sequence_def seq_lengths_def time_dim_def
        target_emb_list_def slice_def slice_bound_def max_len_def)
  show ?thesis
    using unsorted_lengths_rejected [OF h, of 0 "[10, 11, 12, 13, 14, 15, 16 :: int]"] b
    by simp
qed

text \<open>
  Claim C7, as the code has it. An outfit of length 1 gives two empty sequences, and its row
  in each of the four padded tensors consists of padding only; but its effective length 0
  makes the packing of the padded targets raise an error, so the builder ends with an error:
  the batch yields no compacted targets and no loss, hence no denominator either.
\<close>

theorem single_garment_outfit:
  assumes "i < length lengths" and "lengths ! i = 1"
  shows "(\<exists>f_in b_tg f_tg b_in.
      f_input_padded pad emb_seqs lengths = Inr f_in
    \<and> b_target_padded pad emb_seqs lengths = Inr b_tg
    \<and> f_target_padded pad emb_seqs lengths = Inr f_tg
    \<and> b_input_padded pad emb_seqs lengths = Inr b_in
    \<and> f_in ! i = replicate (max_len (input_emb_list emb_seqs lengths)) pad
    \<and> b_tg ! i = replicate (max_len (input_emb_list emb_seqs lengths)) pad
    \<and> f_tg ! i = replicate (max_len (target_emb_list emb_seqs lengths)) pad
    \<and> b_in ! i = replicate (max_len (target_emb_list emb_seqs lengths)) pad
    \<and> isl (pack_padded_sequence f_tg (seq_lengths lengths))
    \<and> isl (pack_padded_sequence b_tg (seq_lengths lengths)))
    \<and> isl (build_batch pad emb_seqs lengths)"
proof -
  have ne: "lengths \<noteq> []" using assms(1) by auto
  have i0: "input_emb_list emb_seqs lengths ! i = []"
    using assms by (simp add: input_emb_list_nth slice_empty)
  have t0: "target_emb_list emb_seqs lengths ! i = []"
    using assms by (simp add: target_emb_list_nth slice_empty)
  have "lengths ! i \<in> set lengths" using assms(1) by simp
  then have pe: "isl (pack_padded_sequence inp (seq_lengths lengths))" for inp :: "'a list list"
    using assms(2) by (intro short_outfit_pack_error [of "lengths ! i"]) simp_all
  then have err: "isl (build_batch pad emb_seqs lengths)"
    by (rule build_batch_pack_error)
  show ?thesis
    using assms(1) ne i0 t0 err pe
    by (simp add: f_input_padded_def b_target_padded_def f_target_padded_def
        b_input_padded_def pad_sequence_ok max_len_flip flip_tensor_rev)
qed

theorem single_garment_outfit_counterexample:
  "[2, 1 :: int] ! 1 = 1
   \<and> build_batch (0::int) [10, 11, 12] [2, 1] = Inl LengthNotPositive"
  by (simp add: build_batch_unfold int64_tensor_def pack_padded_sequence_def seq_lengths_def time_dim_def
        target_emb_list_def slice_def slice_bound_def max_len_def)

theorem single_garment_outfit_witness:
  "(1::nat) < length [2, 1 :: int] \<and> [2, 1 :: int] ! 1 = 1
   \<and> f_input_padded (0::int) [10, 11, 12] [2, 1] = Inr [[10], [0]]
   \<and> b_input_padded (0::int) [10, 11, 12] [2, 1] = Inr [[11], [0]]
   \<and> isl (build_batch (0::int) [10, 11, 12] [2, 1])"
  using single_garment_outfit [of 1 "[2, 1]" 0 "[10, 11, 12 :: int]"]
  by (simp add: f_input_padded_def b_input_padded_def pad_sequence_def flip_tensor_def
      input_emb_list_def target_emb_list_def slice_def slice_bound_def max_len_def)

lemma build_batch_error_source:
  assumes "lengths \<noteq> []"
    and "pack_padded_sequence
           (map (\<lambda>s. s @ replicate (max_len (target_emb_list emb_seqs lengths) - length s) pad)
                (target_emb_list emb_seqs lengths)) (seq_lengths lengths) = Inl e"
  shows "build_batch pad emb_seqs lengths =
      (if int64_tensor (seq_lengths lengths) = Inr (seq_lengths lengths) then Inl e
       else Inl OverflowError)"
  using int64_tensor_cases [of "seq_lengths lengths"] assms(2)
  by (auto simp: build_batch_unfold [OF assms(1)])

text \<open>
  Claim C5, as the code has it. The builder checks nothing before it slices. A batch with an
  outfit of length below 2 is refused only after the slicing and the padding have succeeded:
  by the packing of the padded forward targets, whose error is the builder's, or, when an
  effective length does not fit a signed 64-bit integer, by the conversion of the effective
  lengths to a tensor just before it. Whether the lengths sum to the number of embedding rows
  is never checked: a non-empty batch of non-increasing lengths, each at least 2 and at most
  the number of embedding rows (below \<open>2 ^ 63\<close>), is built without an error, whatever the
  lengths sum to.
\<close>

theorem lengths_checked_only_by_packing:
  "((\<exists>L\<in>set lengths. L < 2) \<longrightarrow>
      (\<exists>f_tg e. f_target_padded pad emb_seqs lengths = Inr f_tg
         \<and> build_batch pad emb_seqs lengths = Inl e
         \<and> (if int64_tensor (seq_lengths lengths) = Inr (seq_lengths lengths)
              then pack_padded_sequence f_tg (seq_lengths lengths) = Inl e
              else int64_tensor (seq_lengths lengths) = Inl e)))
   \<and> (lengths \<noteq> [] \<and> sorted_wrt (\<ge>) lengths
        \<and> (\<forall>L\<in>set lengths. 2 \<le> L \<and> L \<le> int (length emb_seqs))
        \<and> length emb_seqs < 2 ^ 63 \<longrightarrow> \<not> isl (build_batch pad emb_seqs lengths))"
proof (intro conjI impI)
  assume a: "\<exists>L\<in>set lengths. L < 2"
  then obtain L where L: "L \<in> set lengths" "L < 2" by blast
  then have ne: "lengths \<noteq> []" by auto
  let ?ft = "map (\<lambda>s. s @ replicate (max_len (target_emb_list emb_seqs lengths) - length s) pad)
                 (target_emb_list emb_seqs lengths)"
  have ft: "f_target_padded pad emb_seqs lengths = Inr ?ft"
    using ne by (simp add: f_target_padded_def pad_sequence_ok)
  from short_outfit_pack_error [OF L, of ?ft]
  obtain e where e: "pack_padded_sequence ?ft (seq_lengths lengths) = Inl e"
    by (auto simp: isl_def)
  show "\<exists>f_tg e. f_target_padded pad emb_seqs lengths = Inr f_tg
         \<and> build_batch pad emb_seqs lengths = Inl e
         \<and> (if int64_tensor (seq_lengths lengths) = Inr (seq_lengths lengths)
              then pack_padded_sequence f_tg (seq_lengths lengths) = Inl e
              else int64_tensor (seq_lengths lengths) = Inl e)"
  proof (cases "int64_tensor (seq_lengths lengths) = Inr (seq_lengths lengths)")
    case True
    with build_batch_error_source [OF ne e] ft e show ?thesis by auto
  next
    case False
    then have "int64_tensor (seq_lengths lengths) = Inl OverflowError"
      using int64_tensor_cases [of "seq_lengths lengths"] by simp
    with False build_batch_error_source [OF ne e] ft show ?thesis by auto
  qed
next
  assume b: "lengths \<noteq> [] \<and> sorted_wrt (\<ge>) lengths
        \<and> (\<forall>L\<in>set lengths. 2 \<le> L \<and> L \<le> int (length emb_seqs))
        \<and> length emb_seqs < 2 ^ 63"
  then have "hd lengths \<in> set lengths" by simp
  with b have "2 \<le> int (length emb_seqs)" by fastforce
  then have N: "2 \<le> length emb_seqs" by simp
  from b have i64: "int64_tensor (seq_lengths lengths) = Inr (seq_lengths lengths)"
    by (intro int64_tensor_seq_lengths [of _ "length emb_seqs"]) simp_all
  from b have "\<forall>L\<in>set lengths. 2 \<le> L" by simp
  with b N i64 show "\<not> isl (build_batch pad emb_seqs lengths)"
    by (simp add: build_batch_ok)
qed

theorem lengths_checked_only_by_packing_witness:
  "(\<exists>f_tg. f_target_padded (0::int) [10, 11, 12] [2, 1] = Inr f_tg
        \<and> pack_padded_sequence f_tg (seq_lengths [2, 1]) = Inl LengthNotPositive)
   \<and> build_batch (0::int) [10, 11, 12] [2, 1] = Inl LengthNotPositive
   \<and> \<not> isl (build_batch (0::int) [10, 11, 12, 13, 14] [3, 3])"
proof -
  have i64: "int64_tensor (seq_lengths [2, 1]) = Inr (seq_lengths [2, 1])"
    by (simp add: int64_tensor_def seq_lengths_def)
  have b: "build_batch (0::int) [10, 11, 12] [2, 1] = Inl LengthNotPositive"
    by (simp add: build_batch_unfold int64_tensor_def pack_padded_sequence_def seq_lengths_def
        time_dim_def target_emb_list_def slice_def slice_bound_def max_len_def)
  from lengths_checked_only_by_packing [of "[2, 1]" 0 "[10, 11, 12 :: int]"]
  have "\<exists>f_tg e. f_target_padded (0::int) [10, 11, 12] [2, 1] = Inr f_tg
         \<and> build_batch (0::int) [10, 11, 12] [2, 1] = Inl e
         \<and> pack_padded_sequence f_tg (seq_lengths [2, 1]) = Inl e"
    by (simp add: i64)
  with b have one: "\<exists>f_tg. f_target_padded (0::int) [10, 11, 12] [2, 1] = Inr f_tg
        \<and> pack_padded_sequence f_tg (seq_lengths [2, 1]) = Inl LengthNotPositive"
    by auto
  from lengths_checked_only_by_packing [of "[3, 3]" 0 "[10, 11, 12, 13, 14 :: int]"]
  have two: "\<not> isl (build_batch (0::int) [10, 11, 12, 13, 14] [3, 3])"
    by simp
  from one b two show ?thesis by blast
qed

theorem length_mismatch_counterexample:
  "sum_list [3, 3] \<noteq> int (length [10, 11, 12, 13, 14 :: int])
   \<and> build_batch 0 [10, 11, 12, 13, 14 :: int] [3, 3] =
       Inr \<lparr>f_input_embs = [[10, 11], [13, 14]], b_input_embs = [[12, 11], [14, 0]],
            f_target_embs = [11, 14, 12, 0], b_target_embs = [11, 14, 10, 13],
            eff_lengths = [2, 2]\<rparr>"
  by code_simp

section \<open>The claims about the scorer and the loss\<close>

lemma similarity_same_dim:
  assumes "\<forall>out\<in>set output. \<forall>tg\<in>set target_embs. length out = length tg"
  shows "similarity output target_embs =
           Inr (map (\<lambda>out. map (\<lambda>tg. dot out tg) target_embs) output)"
proof -
  have "\<not> list_ex (\<lambda>out. list_ex (\<lambda>tg. length out \<noteq> length tg) target_embs) output"
    using assms by (auto simp: list_ex_iff)
  then show ?thesis by (simp add: similarity_def)
qed

lemma direction_loss_scores:
  assumes "rnn env p mode input_embs lens = Inr output"
    and "\<forall>out\<in>set output. \<forall>tg\<in>set target_embs. length out = length tg"
  shows "direction_loss env p mode input_embs lens target_embs =
           criterion env (map (\<lambda>out. map (\<lambda>tg. dot out tg) target_embs) output)
             [0..<length output]"
  by (simp add: direction_loss_def assms(1) similarity_same_dim [OF assms(2)] arange_def)

text \<open>
  Claim C6, as the code has it. No count check stands between the encoder and the criterion
  (lines 150-152 and 153-155): whenever the encoder returns \<open>M\<close> rows and the target has
  \<open>M'\<close> rows of the same embedding dimension, whatever \<open>M\<close> and \<open>M'\<close> are, the score matrix
  is computed, with \<open>M\<close> rows of \<open>M'\<close> entries, the entry \<open>(i, j)\<close> the dot product of
  output row \<open>i\<close> and target row \<open>j\<close>, and the result of the step is what the criterion
  makes of this matrix and the labels \<open>0, ..., M - 1\<close>.
\<close>

theorem scorer_without_count_check:
  assumes "rnn env p mode input_embs lens = Inr output"
    and "\<forall>out\<in>set output. \<forall>tg\<in>set target_embs. length out = length tg"
  shows "\<exists>score. similarity output target_embs = Inr score
       \<and> length score = length output
       \<and> (\<forall>row\<in>set score. length row = length target_embs)
       \<and> (\<forall>i<length output. \<forall>j<length target_embs.
             score ! i ! j = dot (output ! i) (target_embs ! j))
       \<and> direction_loss env p mode input_embs lens target_embs =
             criterion env score (arange (length score))
       \<and> arange (length score) = [0..<length output]"
  using direction_loss_scores [OF assms] similarity_same_dim [OF assms(2)]
  by (simp add: arange_def)

theorem scorer_without_count_check_witness:
  "similarity [[1, 0 :: int]] [[1, 0], [0, 1]] = Inr [[1, 0]]
   \<and> direction_loss
     \<lparr>encoder_cnn = (\<lambda>p mode img. img), rnn = (\<lambda>p mode x lens. Inr [[1, 0]]),
      criterion = (\<lambda>score labels. Inr (sum_list (map2 (\<lambda>row j. row ! j) score labels))),
      optimizer_update = (\<lambda>n (m::nat) p b. (m, p)), train_loader = (\<lambda>epoch. []),
      val_loader = [], epochs = 1, comment = []\<rparr>
     (0::nat) True [[[1, 0]], [[0, 1]]] [1, 1] [[1, 0], [0, 1 :: int]] = Inr 1"
  using scorer_without_count_check [of
     "\<lparr>encoder_cnn = (\<lambda>p mode img. img), rnn = (\<lambda>p mode x lens. Inr [[1, 0]]),
      criterion = (\<lambda>score labels. Inr (sum_list (map2 (\<lambda>row j. row ! j) score labels))),
      optimizer_update = (\<lambda>n (m::nat) p b. (m, p)), train_loader = (\<lambda>epoch. []),
      val_loader = [], epochs = 1, comment = []\<rparr>"
     "0::nat" True "[[[1, 0]], [[0, 1]]]" "[1, 1]" "[[1, 0 :: int]]" "[[1, 0], [0, 1]]"]
  by (auto simp: similarity_def dot_def arange_def)

theorem count_check_counterexample:
  "length [[1, 0 :: int]] \<noteq> length [[1, 0], [0, 1 :: int]]
   \<and> direction_loss
     \<lparr>encoder_cnn = (\<lambda>p mode img. img), rnn = (\<lambda>p mode x lens. Inr [[1, 0]]),
      criterion = (\<lambda>score labels. Inr (sum_list (map2 (\<lambda>row j. row ! j) score labels))),
      optimizer_update = (\<lambda>n (m::nat) p b. (m, p)), train_loader = (\<lambda>epoch. []),
      val_loader = [], epochs = 1, comment = []\<rparr>
     (0::nat) True [[[1, 0]], [[0, 1]]] [1, 1] [[1, 0], [0, 1 :: int]] = Inr 1
   \<and> train_forward
     \<lparr>encoder_cnn = (\<lambda>p mode img. img), rnn = (\<lambda>p mode x lens. Inr [[1, 0]]),
      criterion = (\<lambda>score labels. Inr (sum_list (map2 (\<lambda>row j. row ! j) score labels))),
      optimizer_update = (\<lambda>n (m::nat) p b. (m, p)), train_loader = (\<lambda>epoch. []),
      val_loader = [], epochs = 1, comment = []\<rparr>
     \<lparr>params = (\<lambda>m. 0::nat), training = (\<lambda>m. True), momentum = (0::nat),
       scheduler_steps = 1, files = (\<lambda>f. None), trace = []\<rparr>
     \<lparr>batch_lengths = [2, 2], batch_images = [[1, 0], [2, 0], [0, 1], [0, 3 :: int]]\<rparr>
     = Inr \<lparr>f_loss = 2, b_loss = 1, all_loss = 3\<rparr>
   \<and> map_sum id (\<lambda>t. length (f_target_embs t))
        (build_batch (pad_row [[1, 0], [2, 0], [0, 1], [0, 3 :: int]])
           [[1, 0], [2, 0], [0, 1], [0, 3 :: int]] [2, 2]) = Inr 2"
  by (simp add: train_forward_def build_batch_unfold int64_tensor_def pack_padded_sequence_def
        seq_lengths_def time_dim_def time_steps_def target_emb_list_def input_emb_list_def
        slice_def slice_bound_def max_len_def pad_row_def direction_loss_def similarity_def
        dot_def arange_def)

lemma backpropagated_append:
  "backpropagated (xs @ ys) = backpropagated xs @ backpropagated ys"
  by (simp add: backpropagated_def)

text \<open>
  Claim C4. In every train step that completes, the value on which \<^verbatim>\<open>backward()\<close> is
  called, once, is the sum of the forward-direction loss and the backward-direction loss,
  each the criterion of its own score matrix; nothing is divided by two, and the same sum
  is added to the running total of the epoch.
\<close>

theorem total_loss_is_sum:
  assumes "train_batch env epoch batch_num (st, total_loss) input_data = Inr (st', total_loss')"
  shows "\<exists>t fl bl.
       build_batch (pad_row (encoder_cnn env (params st EncoderCNN) (training st EncoderCNN)
                               (batch_images input_data)))
         (encoder_cnn env (params st EncoderCNN) (training st EncoderCNN) (batch_images input_data))
         (batch_lengths input_data) = Inr t
     \<and> direction_loss env (params st FRnn) (training st FRnn)
         (f_input_embs t) (eff_lengths t) (f_target_embs t) = Inr fl
     \<and> direction_loss env (params st BRnn) (training st BRnn)
         (b_input_embs t) (eff_lengths t) (b_target_embs t) = Inr bl
     \<and> backpropagated (trace st') = backpropagated (trace st) @ [fl + bl]
     \<and> total_loss' = total_loss + (fl + bl)"
proof -
  from assms obtain l where l: "train_forward env st input_data = Inr l"
    by (auto simp: train_batch_def split: sum.splits)
  from l obtain t fl bl where t:
    "build_batch (pad_row (encoder_cnn env (params st EncoderCNN) (training st EncoderCNN)
                               (batch_images input_data)))
         (encoder_cnn env (params st EncoderCNN) (training st EncoderCNN) (batch_images input_data))
         (batch_lengths input_data) = Inr t"
    and fl: "direction_loss env (params st FRnn) (training st FRnn)
         (f_input_embs t) (eff_lengths t) (f_target_embs t) = Inr fl"
    and bl: "direction_loss env (params st BRnn) (training st BRnn)
         (b_input_embs t) (eff_lengths t) (b_target_embs t) = Inr bl"
    and al: "all_loss l = fl + bl"
    by (auto simp: train_forward_def Let_def split: sum.splits)
  from assms l have tr: "trace st' = trace st
        @ [Forward EncoderCNN True, Forward FRnn True, Forward BRnn True,
           ZeroGrad EncoderCNN, ZeroGrad FRnn, ZeroGrad BRnn,
           Backward (all_loss l), ClipGradNorm, OptimizerStep]
        @ (if batch_num mod log_step = 0
           then [LogStep epoch batch_num (f_loss l) (b_loss l) (all_loss l)] else [])"
    and tot: "total_loss' = total_loss + all_loss l"
    by (auto simp: train_batch_def split: prod.splits)
  have "backpropagated (trace st') = backpropagated (trace st) @ [fl + bl]"
    by (simp add: tr backpropagated_append al) (simp add: backpropagated_def)
  with t fl bl tot al show ?thesis by auto
qed

theorem total_loss_is_sum_witness:
  "\<exists>st'. train_batch
     \<lparr>encoder_cnn = (\<lambda>p mode img. img), rnn = (\<lambda>p mode x lens. Inr (concat x)),
      criterion = (\<lambda>score labels. Inr (sum_list (map2 (\<lambda>row j. row ! j) score labels))),
      optimizer_update = (\<lambda>n m p b. (m, \<lambda>k. Suc (p k))), train_loader = (\<lambda>epoch. []),
      val_loader = [], epochs = 1, comment = []\<rparr>
     1 1
     (\<lparr>params = (\<lambda>m. 0::nat), training = (\<lambda>m. True), momentum = (0::nat),
       scheduler_steps = 1, files = (\<lambda>f. None), trace = []\<rparr>, 0)
     \<lparr>batch_lengths = [2, 2], batch_images = [[1, 0], [2, 0], [0, 1], [0, 3 :: int]]\<rparr>
       = Inr (st', 10)
     \<and> backpropagated (trace st') = [10]"
  (is "\<exists>st'. ?step = Inr (st', 10) \<and> _")
proof -
  have "\<exists>st'. ?step = Inr (st', 10)"
    by (simp add: train_batch_def train_forward_def build_batch_unfold int64_tensor_def pack_padded_sequence_def
        seq_lengths_def time_dim_def time_steps_def target_emb_list_def input_emb_list_def
        slice_def slice_bound_def max_len_def pad_row_def direction_loss_def similarity_def
        dot_def arange_def log_step_def)
  then obtain st' where h: "?step = Inr (st', 10)" ..
  from total_loss_is_sum [OF h] obtain fl bl :: int
    where "backpropagated (trace st') = backpropagated [] @ [fl + bl]" and "10 = 0 + (fl + bl)"
    by auto
  then have "backpropagated (trace st') = [10]"
    by (simp add: backpropagated_def)
  with h show ?thesis by blast
qed

section \<open>The claims about the loop\<close>

lemma valid_batch_frame:
  assumes "valid_batch env (st, tot) b = Inr (st', tot')"
  shows "st' = st\<lparr>trace := trace st
            @ [Forward EncoderCNN False, Forward FRnn False, Forward BRnn False]\<rparr>"
  using assms by (auto simp: valid_batch_def split: sum.splits)

lemma valid_loop_frame:
  assumes "valid_loop env k (st, tot) bn batches = Inr ((st', tot'), bn')"
  shows "\<exists>evs. st' = st\<lparr>trace := trace st @ evs\<rparr>
       \<and> set evs \<subseteq> {Forward EncoderCNN False, Forward FRnn False, Forward BRnn False}"
  using assms
proof (induction batches arbitrary: k st tot bn)
  case Nil
  then have "st' = st\<lparr>trace := trace st @ []\<rparr>" by simp
  then show ?case by (metis empty_set empty_subsetI)
next
  case (Cons b batches)
  from Cons.prems obtain st1 tot1 where
    b: "valid_batch env (st, tot) b = Inr (st1, tot1)" and
    r: "valid_loop env (Suc k) (st1, tot1) (Some k) batches = Inr ((st', tot'), bn')"
    by (auto split: sum.splits)
  from Cons.IH [OF r] obtain evs where
    e: "st' = st1\<lparr>trace := trace st1 @ evs\<rparr>"
      "set evs \<subseteq> {Forward EncoderCNN False, Forward FRnn False, Forward BRnn False}"
    by blast
  let ?evs = "[Forward EncoderCNN False, Forward FRnn False, Forward BRnn False] @ evs"
  have "st' = st\<lparr>trace := trace st @ ?evs\<rparr>"
    using e(1) valid_batch_frame [OF b] by simp
  moreover have "set ?evs \<subseteq> {Forward EncoderCNN False, Forward FRnn False, Forward BRnn False}"
    using e(2) by auto
  ultimately show ?case by blast
qed

lemma valid_forward_train_forward: "valid_forward env st b = train_forward env st b"
  by (simp add: valid_forward_def train_forward_def)

text \<open>
  Claim C9. The validation loop computes its losses by the same forward computation as
  the train loop (the two are equal as functions of the state and the batch), every
  forward pass of it runs with gradient tracking disabled, and when it completes, the
  parameters of the three models, the optimizer's buffers, the schedule, the modes and the
  checkpoint files are what they were before it; the switch to eval mode before the loop
  leaves the parameters alone as well.
\<close>

theorem validation_changes_no_parameter:
  assumes "valid_loop env k (st, tot) bn batches = Inr ((st', tot'), bn')"
  shows "params st' = params st \<and> momentum st' = momentum st
       \<and> scheduler_steps st' = scheduler_steps st \<and> training st' = training st
       \<and> files st' = files st
       \<and> (\<exists>evs. trace st' = trace st @ evs
              \<and> set evs \<subseteq> {Forward EncoderCNN False, Forward FRnn False, Forward BRnn False})
       \<and> valid_forward env st input_data = train_forward env st input_data
       \<and> params (end_train_phase suffix epoch tloss n st) = params st"
proof -
  from valid_loop_frame [OF assms] obtain evs where
    e: "st' = st\<lparr>trace := trace st @ evs\<rparr>"
      "set evs \<subseteq> {Forward EncoderCNN False, Forward FRnn False, Forward BRnn False}"
    by blast
  from e(1) have "params st' = params st" "momentum st' = momentum st"
    "scheduler_steps st' = scheduler_steps st" "training st' = training st"
    "files st' = files st" "trace st' = trace st @ evs"
    by simp_all
  with e(2) show ?thesis
    by (simp add: valid_forward_train_forward end_train_phase_def)
qed

theorem validation_changes_no_parameter_witness:
  "\<exists>st'. valid_loop
     \<lparr>encoder_cnn = (\<lambda>p mode img. img), rnn = (\<lambda>p mode x lens. Inr (concat x)),
      criterion = (\<lambda>score labels. Inr (sum_list (map2 (\<lambda>row j. row ! j) score labels))),
      optimizer_update = (\<lambda>n m p b. (m, \<lambda>k. Suc (p k))), train_loader = (\<lambda>epoch. []),
      val_loader = [], epochs = 1, comment = []\<rparr>
     1
     (\<lparr>params = (\<lambda>m. 7::nat), training = (\<lambda>m. False), momentum = (0::nat),
       scheduler_steps = 1, files = (\<lambda>f. None), trace = []\<rparr>, 0)
     None
     [\<lparr>batch_lengths = [2, 2], batch_images = [[1, 0], [2, 0], [0, 1], [0, 3 :: int]]\<rparr>]
       = Inr ((st', 10), Some 1)
     \<and> params st' EncoderCNN = 7 \<and> params st' FRnn = 7 \<and> params st' BRnn = 7
     \<and> trace st' = [Forward EncoderCNN False, Forward FRnn False, Forward BRnn False]"
  (is "\<exists>st'. ?run = Inr ((st', 10), Some 1) \<and> _")
proof -
  have "\<exists>st'. ?run = Inr ((st', 10), Some 1)
      \<and> trace st' = [Forward EncoderCNN False, Forward FRnn False, Forward BRnn False]"
    by (simp add: valid_batch_def valid_forward_def build_batch_unfold int64_tensor_def pack_padded_sequence_def
        seq_lengths_def time_dim_def time_steps_def target_emb_list_def input_emb_list_def
        slice_def slice_bound_def max_len_def pad_row_def direction_loss_def similarity_def
        dot_def arange_def)
  then obtain st' where h: "?run = Inr ((st', 10), Some 1)"
    and t: "trace st' = [Forward EncoderCNN False, Forward FRnn False, Forward BRnn False]"
    by blast
  from validation_changes_no_parameter [OF h] have "params st' = (\<lambda>m. 7)" by simp
  with h t show ?thesis by simp
qed

lemma train_batch_effect:
  assumes "train_batch env epoch k (st, tot) b = Inr (st', tot')"
  shows "\<exists>evs. trace st' = trace st @ evs \<and> SchedulerStep \<notin> set evs
       \<and> (\<forall>m f. Save m f \<notin> set evs) \<and> count_list evs OptimizerStep = 1"
    and "scheduler_steps st' = scheduler_steps st" and "files st' = files st"
    and "training st' = training st"
proof -
  from assms obtain l where l: "train_forward env st b = Inr l"
    by (auto simp: train_batch_def split: sum.splits)
  let ?evs = "[Forward EncoderCNN True, Forward FRnn True, Forward BRnn True,
           ZeroGrad EncoderCNN, ZeroGrad FRnn, ZeroGrad BRnn,
           Backward (all_loss l), ClipGradNorm, OptimizerStep]
        @ (if k mod log_step = 0
           then [LogStep epoch k (f_loss l) (b_loss l) (all_loss l)] else [])"
  from assms l have tr: "trace st' = trace st @ ?evs"
    and "scheduler_steps st' = scheduler_steps st" "files st' = files st"
    "training st' = training st"
    by (auto simp: train_batch_def split: prod.splits)
  then show "scheduler_steps st' = scheduler_steps st" "files st' = files st"
    "training st' = training st" by simp_all
  have "SchedulerStep \<notin> set ?evs" "\<forall>m f. Save m f \<notin> set ?evs" "count_list ?evs OptimizerStep = 1"
    by simp_all
  with tr show "\<exists>evs. trace st' = trace st @ evs \<and> SchedulerStep \<notin> set evs
       \<and> (\<forall>m f. Save m f \<notin> set evs) \<and> count_list evs OptimizerStep = 1"
    by blast
qed

lemma count_list_append': "count_list (xs @ ys) x = count_list xs x + count_list ys x"
  by (induction xs) auto

lemma train_loop_effect:
  assumes "train_loop env epoch k (st, tot) bn batches = Inr ((st', tot'), bn')"
  shows "(\<exists>evs. trace st' = trace st @ evs \<and> SchedulerStep \<notin> set evs
       \<and> (\<forall>m f. Save m f \<notin> set evs) \<and> count_list evs OptimizerStep = length batches)
       \<and> scheduler_steps st' = scheduler_steps st \<and> files st' = files st
       \<and> training st' = training st"
  using assms
proof (induction batches arbitrary: k st tot bn)
  case Nil
  then have "trace st' = trace st @ []" "st' = st" by simp_all
  then show ?case by (metis count_list.simps(1) empty_iff empty_set list.size(3))
next
  case (Cons b batches)
  from Cons.prems obtain st1 tot1 where
    b: "train_batch env epoch k (st, tot) b = Inr (st1, tot1)" and
    r: "train_loop env epoch (Suc k) (st1, tot1) (Some k) batches = Inr ((st', tot'), bn')"
    by (auto split: sum.splits)
  from train_batch_effect [OF b] obtain evs1 where
    e1: "trace st1 = trace st @ evs1" "SchedulerStep \<notin> set evs1"
      "\<forall>m f. Save m f \<notin> set evs1" "count_list evs1 OptimizerStep = 1"
    and s1: "scheduler_steps st1 = scheduler_steps st" "files st1 = files st"
      "training st1 = training st"
    by blast
  from Cons.IH [OF r] obtain evs2 where
    e2: "trace st' = trace st1 @ evs2" "SchedulerStep \<notin> set evs2"
      "\<forall>m f. Save m f \<notin> set evs2" "count_list evs2 OptimizerStep = length batches"
    and s2: "scheduler_steps st' = scheduler_steps st1" "files st' = files st1"
      "training st' = training st1"
    by blast
  have "trace st' = trace st @ (evs1 @ evs2)" using e1(1) e2(1) by simp
  moreover have "SchedulerStep \<notin> set (evs1 @ evs2)" using e1(2) e2(2) by simp
  moreover have "\<forall>m f. Save m f \<notin> set (evs1 @ evs2)" using e1(3) e2(3) by simp
  moreover have "count_list (evs1 @ evs2) OptimizerStep = length (b # batches)"
    using e1(4) e2(4) by (simp add: count_list_append')
  ultimately show ?case using s1 s2 by (metis (no_types, lifting))
qed


lemma checkpoint_inj: "checkpoint m c = checkpoint m' c \<longleftrightarrow> m = m'"
  by (cases m; cases m') (simp_all add: checkpoint_def)

lemma end_train_phase_files:
  "files (end_train_phase c epoch tloss n st) (checkpoint m c) = Some (params st m)"
  by (cases m) (simp_all add: end_train_phase_def checkpoint_inj)

text \<open>
  Claim C8, as the code has it. In every epoch that completes, the schedule is advanced
  exactly once, and this step is the first action of the epoch: it comes before the train
  phase, hence before every optimizer step of the epoch (one for each train batch). The
  three checkpoints are written after the train phase, after all of its optimizer steps,
  each over the file of the same name, and hold the parameters the models have at the end
  of the epoch.
\<close>

theorem scheduler_steps_at_epoch_start:
  assumes "train_epoch env epoch (st, bn) = Inr (st', bn')"
  shows "scheduler_steps st' = Suc (scheduler_steps st)
    \<and> (\<exists>pre post. trace st' = trace st @ SchedulerStep # pre
            @ [Save FRnn (checkpoint FRnn (comment env)),
               Save BRnn (checkpoint BRnn (comment env)),
               Save EncoderCNN (checkpoint EncoderCNN (comment env))] @ post
         \<and> SchedulerStep \<notin> set pre \<and> SchedulerStep \<notin> set post
         \<and> count_list pre OptimizerStep = length (train_loader env epoch)
         \<and> OptimizerStep \<notin> set post)
    \<and> files st' (checkpoint FRnn (comment env)) = Some (params st' FRnn)
    \<and> files st' (checkpoint BRnn (comment env)) = Some (params st' BRnn)
    \<and> files st' (checkpoint EncoderCNN (comment env)) = Some (params st' EncoderCNN)"
proof -
  let ?c = "comment env"
  from assms obtain st2 tloss n st4 tloss4 n4 where
    t: "train_loop env epoch 1 (begin_epoch st, 0) bn (train_loader env epoch)
          = Inr ((st2, tloss), Some n)" and
    v: "valid_loop env 1 (end_train_phase ?c epoch tloss n st2, 0) (Some n) (val_loader env)
          = Inr ((st4, tloss4), Some n4)" and
    s: "st' = st4\<lparr>trace := trace st4 @ [LogEpoch Valid epoch tloss4 n4]\<rparr>"
    by (auto simp: train_epoch_def split: sum.splits option.splits)
  from train_loop_effect [OF t] obtain evs where
    e: "trace st2 = trace (begin_epoch st) @ evs" "SchedulerStep \<notin> set evs"
      "count_list evs OptimizerStep = length (train_loader env epoch)"
    and k: "scheduler_steps st2 = scheduler_steps (begin_epoch st)"
    by blast
  from valid_loop_frame [OF v] obtain vs where
    w: "st4 = (end_train_phase ?c epoch tloss n st2)\<lparr>trace := trace (end_train_phase ?c epoch tloss n st2) @ vs\<rparr>"
      "set vs \<subseteq> {Forward EncoderCNN False, Forward FRnn False, Forward BRnn False}"
    by blast
  let ?pre = "[SetTraining EncoderCNN True, SetTraining FRnn True, SetTraining BRnn True]
        @ evs @ [LogEpoch Train epoch tloss n]"
  let ?post = "[SetTraining EncoderCNN False, SetTraining FRnn False, SetTraining BRnn False]
        @ vs @ [LogEpoch Valid epoch tloss4 n4]"
  have steps: "scheduler_steps st' = Suc (scheduler_steps st)"
    using s w(1) k by (simp add: end_train_phase_def begin_epoch_def)
  have tr: "trace st' = trace st @ SchedulerStep # ?pre
            @ [Save FRnn (checkpoint FRnn ?c), Save BRnn (checkpoint BRnn ?c),
               Save EncoderCNN (checkpoint EncoderCNN ?c)] @ ?post"
    using s w(1) e(1) by (simp add: end_train_phase_def begin_epoch_def)
  have p1: "SchedulerStep \<notin> set ?pre" using e(2) by simp
  have p2: "SchedulerStep \<notin> set ?post" using w(2) by auto
  have p3: "count_list ?pre OptimizerStep = length (train_loader env epoch)"
    using e(3) by (simp add: count_list_append')
  have p4: "OptimizerStep \<notin> set ?post" using w(2) by auto
  have par: "params st' = params st2" and fil: "files st' = files (end_train_phase ?c epoch tloss n st2)"
    using s w(1) by (simp_all add: end_train_phase_def)
  have f: "files st' (checkpoint m ?c) = Some (params st' m)" for m
    by (simp add: par fil end_train_phase_files)
  from tr p1 p2 p3 p4 have "\<exists>pre post. trace st' = trace st @ SchedulerStep # pre
            @ [Save FRnn (checkpoint FRnn (comment env)),
               Save BRnn (checkpoint BRnn (comment env)),
               Save EncoderCNN (checkpoint EncoderCNN (comment env))] @ post
         \<and> SchedulerStep \<notin> set pre \<and> SchedulerStep \<notin> set post
         \<and> count_list pre OptimizerStep = length (train_loader env epoch)
         \<and> OptimizerStep \<notin> set post"
    by blast
  with steps f show ?thesis by blast
qed

theorem scheduler_steps_at_epoch_start_witness:
  "\<exists>st' bn'. train_epoch
     \<lparr>encoder_cnn = (\<lambda>p mode img. img), rnn = (\<lambda>p mode x lens. Inr (concat x)),
      criterion = (\<lambda>score labels. Inr (sum_list (map2 (\<lambda>row j. row ! j) score labels))),
      optimizer_update = (\<lambda>n m p b. (m, \<lambda>k. Suc (p k))),
      train_loader = (\<lambda>epoch. [\<lparr>batch_lengths = [2, 2],
                                 batch_images = [[1, 0], [2, 0], [0, 1], [0, 3 :: int]]\<rparr>]),
      val_loader = [], epochs = 1, comment = []\<rparr>
     1
     (\<lparr>params = (\<lambda>m. 0::nat), training = (\<lambda>m. True), momentum = (0::nat),
       scheduler_steps = 0, files = (\<lambda>f. None), trace = []\<rparr>, None) = Inr (st', bn')
     \<and> scheduler_steps st' = 1
     \<and> files st' ''f_rnn.pth'' = Some (params st' FRnn)
     \<and> files st' ''b_rnn.pth'' = Some (params st' BRnn)
     \<and> files st' ''encoder_cnn.pth'' = Some (params st' EncoderCNN)"
  (is "\<exists>st' bn'. ?run = Inr (st', bn') \<and> _")
proof -
  have "\<exists>st' bn'. ?run = Inr (st', bn')"
    by (simp add: train_epoch_def begin_epoch_def end_train_phase_def
        train_batch_def train_forward_def build_batch_unfold int64_tensor_def pack_padded_sequence_def
        seq_lengths_def time_dim_def time_steps_def target_emb_list_def input_emb_list_def
        slice_def slice_bound_def max_len_def pad_row_def direction_loss_def similarity_def
        dot_def arange_def log_step_def)
  then obtain st' bn' where h: "?run = Inr (st', bn')" by blast
  from scheduler_steps_at_epoch_start [OF h] h show ?thesis
    by (simp add: checkpoint_def)
qed

theorem scheduler_after_train_phase_counterexample:
  "map_sum id trace (train
     \<lparr>encoder_cnn = (\<lambda>p mode img. img), rnn = (\<lambda>p mode x lens. Inr (concat x)),
      criterion = (\<lambda>score labels. Inr (sum_list (map2 (\<lambda>row j. row ! j) score labels))),
      optimizer_update = (\<lambda>n m p b. (m, \<lambda>k. Suc (p k))),
      train_loader = (\<lambda>epoch. [\<lparr>batch_lengths = [2, 2],
                                 batch_images = [[1, 0], [2, 0], [0, 1], [0, 3 :: int]]\<rparr>]),
      val_loader = [], epochs = 1, comment = []\<rparr>
     \<lparr>params = (\<lambda>m. 0::nat), training = (\<lambda>m. True), momentum = (0::nat),
       scheduler_steps = 0, files = (\<lambda>f. None), trace = []\<rparr>)
   = Inr [SchedulerStep, SetTraining EncoderCNN True, SetTraining FRnn True,
      SetTraining BRnn True, Forward EncoderCNN True, Forward FRnn True,
      Forward BRnn True, ZeroGrad EncoderCNN, ZeroGrad FRnn, ZeroGrad BRnn,
      Backward 10, ClipGradNorm, OptimizerStep, LogEpoch Train 1 10 1,
      Save FRnn ''f_rnn.pth'', Save BRnn ''b_rnn.pth'',
      Save EncoderCNN ''encoder_cnn.pth'', SetTraining EncoderCNN False,
      SetTraining FRnn False, SetTraining BRnn False, LogEpoch Valid 1 0 1]"
  by (simp add: train_def train_epoch_def begin_epoch_def end_train_phase_def
        train_batch_def train_forward_def build_batch_unfold int64_tensor_def pack_padded_sequence_def
        seq_lengths_def time_dim_def time_steps_def target_emb_list_def input_emb_list_def
        slice_def slice_bound_def max_len_def pad_row_def direction_loss_def similarity_def
        dot_def arange_def log_step_def checkpoint_def upt_conv_Cons)

section \<open>The order of the compacted targets\<close>

lemma sorted_desc_nth:
  assumes "sorted_wrt (\<ge>) (lens :: int list)" "i \<le> j" "j < length lens"
  shows "lens ! j \<le> lens ! i"
proof (cases "i = j")
  case True
  then show ?thesis by simp
next
  case False
  with assms(2) have "i < j" by simp
  from sorted_wrt_nth_less [OF assms(1) this assms(3)] show ?thesis by simp
qed

lemma upt_split: "i \<le> j \<Longrightarrow> j \<le> k \<Longrightarrow> [i..<k] = [i..<j] @ [j..<k]"
  using upt_add_eq_append [of i j "k - j"] by simp

lemma step_rows_drop_last:
  assumes "lens ! k \<le> int t"
  shows "map (\<lambda>b. inp ! b ! t) (filter (\<lambda>b. int t < lens ! b) [0..<Suc k]) =
         map (\<lambda>b. (inp :: 'r list list) ! b ! t) (filter (\<lambda>b. int t < lens ! b) [0..<k])"
  using assms by simp

lemma step_rows_all:
  assumes "sorted_wrt (\<ge>) lens" "k < length lens" "int t < lens ! k"
  shows "filter (\<lambda>b. int t < lens ! b) [0..<Suc k] = [0..<Suc k]"
proof -
  have "\<forall>b\<in>set [0..<Suc k]. int t < lens ! b"
  proof
    fix b assume "b \<in> set [0..<Suc k]"
    then have "b \<le> k" by auto
    from sorted_desc_nth [OF assms(1) this assms(2)] assms(3) show "int t < lens ! b" by simp
  qed
  then show ?thesis by (simp only: filter_True)
qed

lemma pack_loop_steps:
  fixes inp :: "'r list list"
  assumes len: "length lens = length inp"
    and srt: "sorted_wrt (\<ge>) lens"
    and tdim: "\<forall>b<length inp. nat (lens ! b) \<le> time_dim inp"
  shows "k \<le> length inp \<Longrightarrow> 0 \<le> prev
     \<Longrightarrow> (\<forall>b. k \<le> b \<and> b < length inp \<longrightarrow> lens ! b \<le> prev)
     \<Longrightarrow> (0 < k \<longrightarrow> prev \<le> lens ! (k - 1))
     \<Longrightarrow> pack_loop inp (length inp - k) prev (rev (take k lens)) =
         concat (map (\<lambda>t. map (\<lambda>b. inp ! b ! t) (filter (\<lambda>b. int t < lens ! b) [0..<k]))
                     [nat prev..<time_dim inp])"
proof (induction k arbitrary: prev)
  case 0
  then show ?case by simp
next
  case (Suc k)
  let ?T = "time_dim inp"
  let ?l = "lens ! k"
  let ?g = "\<lambda>k t. map (\<lambda>b. inp ! b ! t) (filter (\<lambda>b. int t < lens ! b) [0..<k])"
  have k: "k < length inp" "k < length lens" using Suc.prems(1) len by simp_all
  have tk: "rev (take (Suc k) lens) = ?l # rev (take k lens)"
    using k(2) by (simp add: take_Suc_conv_app_nth)
  have idx: "length inp - (length inp - Suc k) = Suc k" "Suc (length inp - Suc k) = length inp - k"
    using k(1) by simp_all
  have prev_le: "prev \<le> ?l" using Suc.prems(4) by simp
  have below: "\<forall>b. k \<le> b \<and> b < length inp \<longrightarrow> lens ! b \<le> ?l"
    using sorted_desc_nth [OF srt] len by simp
  have above: "0 < k \<longrightarrow> ?l \<le> lens ! (k - 1)"
    using sorted_desc_nth [OF srt, of "k - 1" k] k(2) by simp
  have l0: "0 \<le> ?l" using prev_le Suc.prems(2) by simp
  have lT: "nat ?l \<le> ?T" using tdim k(1) by simp
  have IH: "pack_loop inp (length inp - k) ?l (rev (take k lens)) =
      concat (map (?g k) [nat ?l..<?T])"
    using Suc.IH [of ?l] k(1) l0 below above by simp
  have tail: "concat (map (?g (Suc k)) [nat ?l..<?T]) = concat (map (?g k) [nat ?l..<?T])"
  proof -
    have "map (?g (Suc k)) [nat ?l..<?T] = map (?g k) [nat ?l..<?T]"
    proof (rule map_cong [OF refl])
      fix t assume "t \<in> set [nat ?l..<?T]"
      then have "?l \<le> int t" by (simp add: nat_le_iff)
      then show "?g (Suc k) t = ?g k t" by (rule step_rows_drop_last)
    qed
    then show ?thesis by (rule arg_cong [where f = concat])
  qed
  show ?case
  proof (cases "prev < ?l")
    case True
    have pl: "nat prev \<le> nat ?l" using True by simp
    have head: "time_steps inp (nat prev) (nat ?l) (Suc k) =
        concat (map (?g (Suc k)) [nat prev..<nat ?l])"
    proof -
      have "map (\<lambda>t. map (\<lambda>b. inp ! b ! t) [0..<Suc k]) [nat prev..<nat ?l]
          = map (?g (Suc k)) [nat prev..<nat ?l]"
      proof (rule map_cong [OF refl])
        fix t assume "t \<in> set [nat prev..<nat ?l]"
        then have "int t < ?l" by (simp add: zless_nat_eq_int_zless)
        from step_rows_all [OF srt k(2) this]
        show "map (\<lambda>b. inp ! b ! t) [0..<Suc k] = ?g (Suc k) t" by simp
      qed
      moreover have "min (nat prev) ?T = nat prev" "min (nat ?l) ?T = nat ?l"
        using pl lT by simp_all
      ultimately show ?thesis by (simp only: time_steps_def)
    qed
    have split: "[nat prev..<?T] = [nat prev..<nat ?l] @ [nat ?l..<?T]"
      using pl lT by (rule upt_split)
    have "pack_loop inp (length inp - Suc k) prev (rev (take (Suc k) lens)) =
        time_steps inp (nat prev) (nat ?l) (Suc k)
        @ pack_loop inp (length inp - k) ?l (rev (take k lens))"
      using True by (simp only: tk pack_loop.simps idx if_True)
    also have "\<dots> = concat (map (?g (Suc k)) [nat prev..<nat ?l])
        @ concat (map (?g (Suc k)) [nat ?l..<?T])"
      by (simp only: head IH tail)
    also have "\<dots> = concat (map (?g (Suc k)) [nat prev..<?T])"
      by (simp only: split map_append concat_append)
    finally show ?thesis .
  next
    case False
    with prev_le have eq: "prev = ?l" by simp
    have "pack_loop inp (length inp - Suc k) prev (rev (take (Suc k) lens)) =
        pack_loop inp (length inp - k) prev (rev (take k lens))"
      using False by (simp only: tk pack_loop.simps idx if_False)
    also have "\<dots> = concat (map (?g k) [nat prev..<?T])"
      using IH by (simp only: eq)
    also have "\<dots> = concat (map (?g (Suc k)) [nat prev..<?T])"
      using tail by (simp only: eq)
    finally show ?thesis .
  qed
qed


lemma pack_loop_time_major:
  fixes seqs :: "'r list list"
  assumes ne: "seqs \<noteq> []" and srt: "sorted_wrt (\<ge>) (map (\<lambda>s. int (length s)) seqs)"
  shows "pack_loop (map (\<lambda>s. s @ replicate (max_len seqs - length s) pad) seqs) 0 0
           (rev (map (\<lambda>s. int (length s)) seqs)) = time_major seqs"
proof -
  let ?inp = "map (\<lambda>s. s @ replicate (max_len seqs - length s) pad) seqs"
  let ?lens = "map (\<lambda>s. int (length s)) seqs"
  let ?B = "length seqs"
  have T: "time_dim ?inp = max_len seqs" by (rule time_dim_padded [OF ne])
  have tdim: "\<forall>b<length ?inp. nat (?lens ! b) \<le> time_dim ?inp"
    by (simp add: T max_len_ge)
  have "pack_loop ?inp (length ?inp - ?B) 0 (rev (take ?B ?lens)) =
      concat (map (\<lambda>t. map (\<lambda>b. ?inp ! b ! t) (filter (\<lambda>b. int t < ?lens ! b) [0..<?B]))
                  [nat 0..<time_dim ?inp])"
    using srt tdim by (intro pack_loop_steps) auto
  then have loop: "pack_loop ?inp 0 0 (rev ?lens) =
      concat (map (\<lambda>t. map (\<lambda>b. ?inp ! b ! t) (filter (\<lambda>b. int t < ?lens ! b) [0..<?B]))
                  [0..<max_len seqs])"
    by (simp add: T)
  have row: "map (\<lambda>b. ?inp ! b ! t) (filter (\<lambda>b. int t < ?lens ! b) [0..<?B]) =
      map (\<lambda>s. s ! t) (filter (\<lambda>s. t < length s) seqs)" for t
  proof -
    have a: "filter (\<lambda>b. int t < ?lens ! b) [0..<?B] = filter (\<lambda>b. t < length (seqs ! b)) [0..<?B]"
      by (rule filter_cong [OF refl]) simp
    have b: "map (\<lambda>b. ?inp ! b ! t) (filter (\<lambda>b. t < length (seqs ! b)) [0..<?B]) =
        map (\<lambda>b. seqs ! b ! t) (filter (\<lambda>b. t < length (seqs ! b)) [0..<?B])"
      by (rule map_cong [OF refl]) (simp add: nth_append)
    have c: "map (\<lambda>b. seqs ! b ! t) (filter (\<lambda>b. t < length (seqs ! b)) [0..<?B]) =
        map (\<lambda>s. s ! t) (filter (\<lambda>s. t < length s) (map ((!) seqs) [0..<?B]))"
      by (simp add: filter_map comp_def)
    show ?thesis by (simp only: a b c map_nth)
  qed
  show ?thesis by (simp only: loop row time_major_def)
qed

lemma valid_batch_seq_lengths:
  assumes "sum_list lengths = int (length emb_seqs)" and "\<forall>L\<in>set lengths. 2 \<le> L"
  shows "map (\<lambda>s. int (length s)) (input_emb_list emb_seqs lengths) = seq_lengths lengths"
    and "map (\<lambda>s. int (length s)) (target_emb_list emb_seqs lengths) = seq_lengths lengths"
proof -
  have nn: "\<forall>L\<in>set lengths. 0 \<le> L" using assms(2) by fastforce
  have "int (length (input_emb_list emb_seqs lengths ! i)) = lengths ! i - 1
      \<and> int (length (target_emb_list emb_seqs lengths ! i)) = lengths ! i - 1"
    if i: "i < length lengths" for i
  proof -
    let ?s = "sum_list (take i lengths)" and ?L = "lengths ! i"
    have L2: "2 \<le> ?L" using assms(2) i by simp
    from sum_list_take_bounds [OF nn i]
    have s0: "0 \<le> ?s" and sL: "?s + ?L \<le> int (length emb_seqs)"
      using assms(1) by simp_all
    have "input_emb_list emb_seqs lengths ! i = map ((!) emb_seqs) [nat ?s..<nat (?s + ?L - 1)]"
      using slice_in_range [of ?s "?s + ?L - 1" emb_seqs] s0 L2 sL
      by (simp add: input_emb_list_nth [OF i])
    moreover
    have "target_emb_list emb_seqs lengths ! i = map ((!) emb_seqs) [nat (?s + 1)..<nat (?s + ?L)]"
      using slice_in_range [of "?s + 1" "?s + ?L" emb_seqs] s0 L2 sL
      by (simp add: target_emb_list_nth [OF i])
    ultimately show ?thesis using s0 L2 by simp
  qed
  then show "map (\<lambda>s. int (length s)) (input_emb_list emb_seqs lengths) = seq_lengths lengths"
    and "map (\<lambda>s. int (length s)) (target_emb_list emb_seqs lengths) = seq_lengths lengths"
    by (auto simp: seq_lengths_def intro!: nth_equalityI)
qed


lemma max_len_rev: "max_len (map rev seqs) = max_len seqs"
  by (simp add: max_len_def comp_def)

lemma length_le_sum_list:
  assumes "\<forall>L\<in>set lengths. (0::int) \<le> L" "L \<in> set lengths"
  shows "L \<le> sum_list lengths"
proof -
  from assms(2) obtain i where i: "i < length lengths" "lengths ! i = L"
    by (auto simp: in_set_conv_nth)
  from sum_list_take_bounds [OF assms(1) i(1)] i(2) show ?thesis by simp
qed

text \<open>
  Claim C2, as the code has it. For a batch whose lengths sum to the number of embedding rows
  (below \<open>2 ^ 63\<close>), are all at least 2 and stand in non-increasing order, the builder
  returns, and the compacted forward targets are the forward target sequences in time-major
  order: first the first valid target of every outfit, in batch order, then the second one
  of every outfit that has one, and so on; the compacted backward targets are the reversed
  forward input sequences in the same order. An outfit's targets are therefore not
  contiguous when another outfit shares a time step with it. In either direction the
  criterion receives the scores of the encoder's output rows against these targets together
  with the labels \<open>0, ..., M - 1\<close> for the \<open>M\<close> output rows: the label of row \<open>i\<close> is \<open>i\<close>.
\<close>

theorem compacted_targets_time_major:
  fixes pad :: "'a::semiring_0 list"
  assumes "lengths \<noteq> []" and "sum_list lengths = int (length emb_seqs)"
    and "\<forall>L\<in>set lengths. 2 \<le> L" and "sorted_wrt (\<ge>) lengths"
    and "length emb_seqs < 2 ^ 63"
  shows "\<exists>t. build_batch pad emb_seqs lengths = Inr t
     \<and> f_target_embs t = time_major (target_emb_list emb_seqs lengths)
     \<and> b_target_embs t = time_major (map flip_tensor (input_emb_list emb_seqs lengths))
     \<and> (rnn env p mode (f_input_embs t) (eff_lengths t) = Inr f_output
          \<and> (\<forall>out\<in>set f_output. \<forall>tg\<in>set (f_target_embs t). length out = length tg)
        \<longrightarrow> direction_loss env p mode (f_input_embs t) (eff_lengths t) (f_target_embs t) =
              criterion env
                (map (\<lambda>out. map (\<lambda>tg. dot out tg)
                        (time_major (target_emb_list emb_seqs lengths))) f_output)
                [0..<length f_output])
     \<and> (rnn env p' mode' (b_input_embs t) (eff_lengths t) = Inr b_output
          \<and> (\<forall>out\<in>set b_output. \<forall>tg\<in>set (b_target_embs t). length out = length tg)
        \<longrightarrow> direction_loss env p' mode' (b_input_embs t) (eff_lengths t) (b_target_embs t) =
              criterion env
                (map (\<lambda>out. map (\<lambda>tg. dot out tg)
                        (time_major (map flip_tensor (input_emb_list emb_seqs lengths)))) b_output)
                [0..<length b_output])"
proof -
  let ?ins = "input_emb_list emb_seqs lengths" and ?tgs = "target_emb_list emb_seqs lengths"
  have nn: "\<forall>L\<in>set lengths. 0 \<le> L" using assms(3) by fastforce
  have le: "\<forall>L\<in>set lengths. 2 \<le> L \<and> L \<le> int (length emb_seqs)"
    using assms(3) length_le_sum_list [OF nn] assms(2) by auto
  have "hd lengths \<in> set lengths" using assms(1) by simp
  with le have "2 \<le> int (length emb_seqs)" by fastforce
  then have N: "2 \<le> length emb_seqs" by simp
  have i64: "int64_tensor (seq_lengths lengths) = Inr (seq_lengths lengths)"
    using le assms(5) by (rule int64_tensor_seq_lengths)
  note lens = valid_batch_seq_lengths [OF assms(2,3)]
  have srt: "sorted_wrt (\<ge>) (seq_lengths lengths)"
    using assms(4) by (simp add: seq_lengths_sorted)
  have f: "pack_loop (map (\<lambda>s. s @ replicate (max_len ?tgs - length s) pad) ?tgs) 0 0
             (rev (seq_lengths lengths)) = time_major ?tgs"
    using pack_loop_time_major [of ?tgs pad] assms(1) srt by (simp add: lens(2))
  have b: "pack_loop (map (\<lambda>s. rev s @ replicate (max_len ?ins - length s) pad) ?ins) 0 0
             (rev (seq_lengths lengths)) = time_major (map flip_tensor ?ins)"
  proof -
    have fl: "map flip_tensor ?ins = map rev ?ins" by (simp add: flip_tensor_rev)
    have "pack_loop (map (\<lambda>s. s @ replicate (max_len (map rev ?ins) - length s) pad)
                      (map rev ?ins)) 0 0
             (rev (map (\<lambda>s. int (length s)) (map rev ?ins))) = time_major (map rev ?ins)"
      using assms(1) srt by (intro pack_loop_time_major) (simp_all add: comp_def lens(1))
    then show ?thesis
      by (simp add: fl max_len_rev comp_def lens(1))
  qed
  obtain t where t: "build_batch pad emb_seqs lengths = Inr t"
    and ft: "f_target_embs t = time_major ?tgs"
    and bt: "b_target_embs t = time_major (map flip_tensor ?ins)"
    by (simp add: build_batch_ok [OF assms(1,4,3) N i64] f b)
  have dl: "rnn env p mode (f_input_embs t) (eff_lengths t) = Inr f_output
          \<and> (\<forall>out\<in>set f_output. \<forall>tg\<in>set (f_target_embs t). length out = length tg)
        \<longrightarrow> direction_loss env p mode (f_input_embs t) (eff_lengths t) (f_target_embs t) =
              criterion env (map (\<lambda>out. map (\<lambda>tg. dot out tg) (time_major ?tgs)) f_output)
                [0..<length f_output]"
    using direction_loss_scores [of env p mode "f_input_embs t" "eff_lengths t" f_output
        "f_target_embs t"]
    by (simp add: ft)
  have dl': "rnn env p' mode' (b_input_embs t) (eff_lengths t) = Inr b_output
          \<and> (\<forall>out\<in>set b_output. \<forall>tg\<in>set (b_target_embs t). length out = length tg)
        \<longrightarrow> direction_loss env p' mode' (b_input_embs t) (eff_lengths t) (b_target_embs t) =
              criterion env
                (map (\<lambda>out. map (\<lambda>tg. dot out tg) (time_major (map flip_tensor ?ins))) b_output)
                [0..<length b_output]"
    using direction_loss_scores [of env p' mode' "b_input_embs t" "eff_lengths t" b_output
        "b_target_embs t"]
    by (simp add: bt)
  from t ft bt dl dl' show ?thesis by blast
qed

theorem compacted_targets_time_major_witness:
  "\<exists>t. build_batch [0] [[10], [11], [12], [13], [14], [15], [16 :: int]] [4, 3] = Inr t
     \<and> f_target_embs t = [[11], [15], [12], [16], [13]]
     \<and> b_target_embs t = [[12], [15], [11], [14], [10]]
     \<and> direction_loss
          \<lparr>encoder_cnn = (\<lambda>p mode img. img), rnn = (\<lambda>p mode x lens. Inr [[1], [2]]),
           criterion = (\<lambda>score labels. Inr (sum_list (map2 (\<lambda>row j. row ! j) score labels))),
           optimizer_update = (\<lambda>n (m::nat) p b. (m, p)), train_loader = (\<lambda>epoch. []),
           val_loader = [], epochs = 1, comment = []\<rparr>
          (0::nat) True (f_input_embs t) (eff_lengths t) (f_target_embs t) = Inr 41"
proof -
  let ?E = "\<lparr>encoder_cnn = (\<lambda>(p::nat) (mode::bool) (img::int list list). img),
           rnn = (\<lambda>p mode x lens. Inr [[1], [2 :: int]]),
           criterion = (\<lambda>score labels. Inr (sum_list (map2 (\<lambda>row j. row ! j) score labels))),
           optimizer_update = (\<lambda>(n::nat) (m::nat) p (b :: int list list batch). (m, p)),
           train_loader = (\<lambda>epoch. []),
           val_loader = [], epochs = 1, comment = []\<rparr>"
  have tm: "time_major (target_emb_list [[10], [11], [12], [13], [14], [15], [16 :: int]] [4, 3])
      = [[11], [15], [12], [16], [13]]"
    "time_major (map flip_tensor
        (input_emb_list [[10], [11], [12], [13], [14], [15], [16 :: int]] [4, 3]))
      = [[12], [15], [11], [14], [10]]"
    by (simp_all add: time_major_def input_emb_list_def target_emb_list_def slice_def
        slice_bound_def max_len_def flip_tensor_def upt_conv_Cons)
  have h: "[4, 3 :: int] \<noteq> []"
    "sum_list [4, 3] = int (length [[10], [11], [12], [13], [14], [15], [16 :: int]])"
    "\<forall>L\<in>set [4, 3 :: int]. 2 \<le> L" "sorted_wrt (\<ge>) [4, 3 :: int]"
    "length [[10], [11], [12], [13], [14], [15], [16 :: int]] < 2 ^ 63"
    by simp_all
  note inst = compacted_targets_time_major [where pad = "[0]" and env = ?E and p = 0
      and mode = True and f_output = "[[1], [2]]" and p' = 0 and mode' = True
      and b_output = "[[1], [2]]", OF h]
  from inst obtain t where all:
    "build_batch [0] [[10], [11], [12], [13], [14], [15], [16 :: int]] [4, 3] = Inr t
     \<and> f_target_embs t
         = time_major (target_emb_list [[10], [11], [12], [13], [14], [15], [16 :: int]] [4, 3])
     \<and> b_target_embs t
         = time_major (map flip_tensor
             (input_emb_list [[10], [11], [12], [13], [14], [15], [16 :: int]] [4, 3]))
     \<and> (rnn ?E 0 True (f_input_embs t) (eff_lengths t) = Inr [[1], [2]]
          \<and> (\<forall>out\<in>set [[1], [2 :: int]]. \<forall>tg\<in>set (f_target_embs t). length out = length tg)
        \<longrightarrow> direction_loss ?E 0 True (f_input_embs t) (eff_lengths t) (f_target_embs t) =
              criterion ?E
                (map (\<lambda>out. map (\<lambda>tg. dot out tg)
                   (time_major
                     (target_emb_list [[10], [11], [12], [13], [14], [15], [16 :: int]] [4, 3])))
                   [[1], [2]])
                [0..<length [[1], [2 :: int]]])
     \<and> (rnn ?E 0 True (b_input_embs t) (eff_lengths t) = Inr [[1], [2]]
          \<and> (\<forall>out\<in>set [[1], [2 :: int]]. \<forall>tg\<in>set (b_target_embs t). length out = length tg)
        \<longrightarrow> direction_loss ?E 0 True (b_input_embs t) (eff_lengths t) (b_target_embs t) =
              criterion ?E
                (map (\<lambda>out. map (\<lambda>tg. dot out tg)
                   (time_major (map flip_tensor
                     (input_emb_list [[10], [11], [12], [13], [14], [15], [16 :: int]] [4, 3]))))
                   [[1], [2]])
                [0..<length [[1], [2 :: int]]])" ..
  note t = all [THEN conjunct1]
  have ft: "f_target_embs t = [[11], [15], [12], [16], [13]]"
    using all [THEN conjunct2, THEN conjunct1] by (simp only: tm)
  have bt: "b_target_embs t = [[12], [15], [11], [14], [10]]"
    using all [THEN conjunct2, THEN conjunct2, THEN conjunct1] by (simp only: tm)
  have dl: "direction_loss ?E 0 True (f_input_embs t) (eff_lengths t) (f_target_embs t) = Inr 41"
    using all [THEN conjunct2, THEN conjunct2, THEN conjunct2, THEN conjunct1]
    by (simp add: ft tm dot_def upt_conv_Cons)
  show ?thesis by (intro exI [of _ t] conjI t ft bt dl)
qed

theorem row_major_targets_counterexample:
  "build_batch 0 [10, 11, 12, 13, 14, 15, 16 :: int] [4, 3] =
       Inr \<lparr>f_input_embs = [[10, 11, 12], [14, 15, 0]],
            b_input_embs = [[13, 12, 11], [16, 15, 0]],
            f_target_embs = [11, 15, 12, 16, 13], b_target_embs = [12, 15, 11, 14, 10],
            eff_lengths = [3, 2]\<rparr>
   \<and> concat (target_emb_list [10, 11, 12, 13, 14, 15, 16 :: int] [4, 3]) = [11, 12, 13, 15, 16]"
  by code_simp

end
